theory Spec2Isabelle
  imports Main "HOL-Library.AList"
begin

section \<open>Common Python notions\<close>

text \<open>
  A \<open>datetime\<close> is represented by the instant it denotes, counted in microseconds
  (the resolution of Python's \<open>datetime\<close>) since the epoch; a \<open>timedelta\<close> is a
  number of microseconds. The naive local datetimes of \<open>datetime.now()\<close> and the naive
  UTC datetimes of \<open>datetime.utcnow()\<close> are only ever compared with datetimes of their own
  kind, so one time line serves both. Every operation reads the clock once: the instant
  \<open>now\<close> it is given.
\<close>

type_synonym time = int

definition seconds :: "int \<Rightarrow> time" where
  "seconds n = n * 1000000"

definition minutes :: "int \<Rightarrow> time" where
  "minutes n = n * 60000000"

definition days :: "int \<Rightarrow> time" where
  "days n = n * 86400000000"

datatype error =
    KeyError string
  | ValueError string
  | TypeError string
  | OverflowError string
  | AttributeError string
  | KeyManagementError string
  | SignatureError string
  | OtherError string

subsection \<open>Strings\<close>

text \<open>
  Python's \<open>str.strip()\<close> removes the white space of \<open>str.isspace\<close>; among the code
  points below 256 these are 9 to 13, 28 to 32, 133 and 160.
\<close>

definition is_space :: "char \<Rightarrow> bool" where
  "is_space c = (let n = (of_char c :: nat) in
     (9 \<le> n \<and> n \<le> 13) \<or> (28 \<le> n \<and> n \<le> 32) \<or> n = 133 \<or> n = 160)"

definition py_strip_chars :: "(char \<Rightarrow> bool) \<Rightarrow> string \<Rightarrow> string" where
  "py_strip_chars p s = rev (dropWhile p (rev (dropWhile p s)))"

definition py_strip :: "string \<Rightarrow> string" where
  "py_strip s = py_strip_chars is_space s"

definition is_digit :: "char \<Rightarrow> bool" where
  "is_digit c = (let n = (of_char c :: nat) in 48 \<le> n \<and> n \<le> 57)"

definition digit_val :: "char \<Rightarrow> int" where
  "digit_val c = int (of_char c) - 48"

text \<open>
  The digits of a decimal literal as \<open>int()\<close> accepts them: a digit, then digits each
  optionally preceded by one underscore. \<open>acc\<close> is the value read so far.
\<close>

fun py_digits :: "int \<Rightarrow> string \<Rightarrow> int option" where
  "py_digits acc [] = Some acc"
| "py_digits acc [c] = (if is_digit c then Some (acc * 10 + digit_val c) else None)"
| "py_digits acc (c # d # cs) =
     (if is_digit c then py_digits (acc * 10 + digit_val c) (d # cs)
      else if c = CHR ''_'' \<and> is_digit d then py_digits acc (d # cs)
      else None)"

text \<open>\<open>int(s)\<close> for a string: surrounding white space, an optional sign, the digits.\<close>

definition py_int :: "string \<Rightarrow> error + int" where
  "py_int s =
     (let t = py_strip s;
          (neg, ds) = (case t of
                         c # cs \<Rightarrow> if c = CHR ''-'' then (True, cs)
                                   else if c = CHR ''+'' then (False, cs)
                                   else (False, t)
                       | [] \<Rightarrow> (False, t))
      in case ds of
           [] \<Rightarrow> Inl (ValueError ''invalid literal for int()'')
         | c # cs \<Rightarrow>
             if \<not> is_digit c then Inl (ValueError ''invalid literal for int()'')
             else (case py_digits 0 ds of
                     None \<Rightarrow> Inl (ValueError ''invalid literal for int()'')
                   | Some n \<Rightarrow> Inr (if neg then - n else n)))"

section \<open>cache/memory\_cache.py\<close>

record 'v MemoryCache =
  data :: "string \<rightharpoonup> 'v"
  expires :: "string \<rightharpoonup> time"
  ttl :: int

definition MemoryCache_init :: "int \<Rightarrow> 'v MemoryCache" where
  "MemoryCache_init t = \<lparr> data = Map.empty, expires = Map.empty, ttl = t \<rparr>"

text \<open>
  \<open>MemoryCache.get\<close>: a missing key gives \<open>None\<close>; an entry whose expiry lies before
  \<open>now\<close> is deleted and gives \<open>None\<close>. \<open>self.expires[key]\<close> raises \<open>KeyError\<close> when
  the key has no expiry.
\<close>

definition cache_get ::
  "time \<Rightarrow> 'v MemoryCache \<Rightarrow> string \<Rightarrow> error + ('v option \<times> 'v MemoryCache)" where
  "cache_get now c key =
     (case data c key of
        None \<Rightarrow> Inr (None, c)
      | Some v \<Rightarrow>
          (case expires c key of
             None \<Rightarrow> Inl (KeyError key)
           | Some e \<Rightarrow>
               if now > e
               then Inr (None, c\<lparr> data := (data c)(key := None),
                                  expires := (expires c)(key := None) \<rparr>)
               else Inr (Some v, c)))"

definition cache_set :: "time \<Rightarrow> 'v MemoryCache \<Rightarrow> string \<Rightarrow> 'v \<Rightarrow> 'v MemoryCache" where
  "cache_set now c key v =
     c\<lparr> data := (data c)(key \<mapsto> v),
        expires := (expires c)(key \<mapsto> now + seconds (ttl c)) \<rparr>"

definition cache_delete :: "'v MemoryCache \<Rightarrow> string \<Rightarrow> 'v MemoryCache" where
  "cache_delete c key =
     c\<lparr> data := (data c)(key := None), expires := (expires c)(key := None) \<rparr>"

definition cache_clear :: "'v MemoryCache \<Rightarrow> 'v MemoryCache" where
  "cache_clear c = c\<lparr> data := Map.empty, expires := Map.empty \<rparr>"

section \<open>federation/rate\_limit.py\<close>

datatype RateLimitStrategy = FIXED_WINDOW | SLIDING_WINDOW | TOKEN_BUCKET | LEAKY_BUCKET

record RateLimit =
  requests :: int
  period :: int
  burst :: "int option"

record RateLimitState =
  remaining :: int
  reset :: time
  limit :: int

record RateLimiter =
  default_limit :: RateLimit
  strategy :: RateLimitStrategy
  cache :: "RateLimitState MemoryCache"

definition RateLimiter_init ::
  "RateLimit option \<Rightarrow> RateLimitStrategy \<Rightarrow> int \<Rightarrow> RateLimiter" where
  "RateLimiter_init dl st t =
     \<lparr> default_limit = (case dl of
                          Some l \<Rightarrow> l
                        | None \<Rightarrow> \<lparr> requests = 100, period = 60, burst = Some 20 \<rparr>),
       strategy = st,
       cache = MemoryCache_init t \<rparr>"

definition state_key :: "string \<Rightarrow> string" where
  "state_key domain = ''ratelimit:'' @ domain"

definition fresh_state :: "time \<Rightarrow> RateLimiter \<Rightarrow> RateLimitState" where
  "fresh_state now rl =
     \<lparr> remaining = requests (default_limit rl),
       reset = now + seconds (period (default_limit rl)),
       limit = requests (default_limit rl) \<rparr>"

definition set_state :: "time \<Rightarrow> RateLimiter \<Rightarrow> string \<Rightarrow> RateLimitState \<Rightarrow> RateLimiter" where
  "set_state now rl domain st = rl\<lparr> cache := cache_set now (cache rl) (state_key domain) st \<rparr>"

definition get_state ::
  "time \<Rightarrow> RateLimiter \<Rightarrow> string \<Rightarrow> error + (RateLimitState \<times> RateLimiter)" where
  "get_state now rl domain =
     (case cache_get now (cache rl) (state_key domain) of
        Inl e \<Rightarrow> Inl e
      | Inr (None, c) \<Rightarrow>
          (let st = fresh_state now rl
           in Inr (st, set_state now (rl\<lparr> cache := c \<rparr>) domain st))
      | Inr (Some st, c) \<Rightarrow> Inr (st, rl\<lparr> cache := c \<rparr>))"

definition check_rate_limit ::
  "time \<Rightarrow> RateLimiter \<Rightarrow> string \<Rightarrow> error + (bool \<times> RateLimiter)" where
  "check_rate_limit now rl domain =
     (case get_state now rl domain of
        Inl e \<Rightarrow> Inl e
      | Inr (st, rl1) \<Rightarrow>
          if now \<ge> reset st
          then Inr (True, set_state now rl1 domain (fresh_state now rl1))
          else if remaining st \<le> 0 then Inr (False, rl1)
          else Inr (True, set_state now rl1 domain (st\<lparr> remaining := remaining st - 1 \<rparr>)))"

text \<open>The wait time is a \<open>timedelta\<close> here; the source converts it to seconds.\<close>

definition get_wait_time ::
  "time \<Rightarrow> RateLimiter \<Rightarrow> string \<Rightarrow> error + (time \<times> RateLimiter)" where
  "get_wait_time now rl domain =
     (case get_state now rl domain of
        Inl e \<Rightarrow> Inl e
      | Inr (st, rl1) \<Rightarrow>
          if remaining st > 0 then Inr (0, rl1)
          else Inr (max 0 (reset st - now), rl1))"

text \<open>
  \<open>datetime.fromtimestamp\<close> raises outside the years 1 to 9999; the bounds are those
  of UTC, in seconds since the epoch.
\<close>

definition fromtimestamp :: "int \<Rightarrow> error + time" where
  "fromtimestamp s =
     (if - 62135596800 \<le> s \<and> s \<le> 253402300799 then Inr (seconds s)
      else Inl (OverflowError ''timestamp out of range''))"

type_synonym headers = "(string \<times> string) list"

definition update_rate_limit ::
  "time \<Rightarrow> RateLimiter \<Rightarrow> string \<Rightarrow> headers \<Rightarrow> error + RateLimiter" where
  "update_rate_limit now rl domain hs =
     (case (map_of hs ''X-RateLimit-Remaining'', map_of hs ''X-RateLimit-Reset'',
            map_of hs ''X-RateLimit-Limit'') of
        (Some r, Some t, Some l) \<Rightarrow>
          (case py_int r of
             Inl e \<Rightarrow> Inl e
           | Inr r' \<Rightarrow>
               (case py_int t of
                  Inl e \<Rightarrow> Inl e
                | Inr t' \<Rightarrow>
                    (case fromtimestamp t' of
                       Inl e \<Rightarrow> Inl e
                     | Inr t'' \<Rightarrow>
                         (case py_int l of
                            Inl e \<Rightarrow> Inl e
                          | Inr l' \<Rightarrow>
                              Inr (set_state now rl domain
                                     \<lparr> remaining = r', reset = t'', limit = l' \<rparr>)))))
      | _ \<Rightarrow> Inr rl)"

subsection \<open>Notions for stating the properties of the rate limiter\<close>

text \<open>Consecutive calls of \<open>check_rate_limit\<close> for one domain, at the given instants.\<close>

fun check_times :: "time list \<Rightarrow> RateLimiter \<Rightarrow> string \<Rightarrow> error + (bool list \<times> RateLimiter)" where
  "check_times [] rl domain = Inr ([], rl)"
| "check_times (t # ts) rl domain =
     (case check_rate_limit t rl domain of
        Inl e \<Rightarrow> Inl e
      | Inr (b, rl1) \<Rightarrow>
          (case check_times ts rl1 domain of
             Inl e \<Rightarrow> Inl e
           | Inr (bs, rl2) \<Rightarrow> Inr (b # bs, rl2)))"

definition stored :: "RateLimiter \<Rightarrow> string \<Rightarrow> RateLimitState option" where
  "stored rl domain = data (cache rl) (state_key domain)"

definition alive_until :: "RateLimiter \<Rightarrow> string \<Rightarrow> time \<Rightarrow> bool" where
  "alive_until rl domain b =
     (case expires (cache rl) (state_key domain) of None \<Rightarrow> False | Some e \<Rightarrow> b \<le> e)"

text \<open>Every call comes no later than \<open>T\<close> after the call before it.\<close>

fun paced :: "time \<Rightarrow> time list \<Rightarrow> bool" where
  "paced T (a # b # cs) = (b \<le> a + T \<and> paced T (b # cs))"
| "paced T cs = True"

text \<open>The answers of consecutive calls, and the counter stored after the last of them.\<close>

definition check_outcomes ::
  "time list \<Rightarrow> RateLimiter \<Rightarrow> string \<Rightarrow> error + (bool list \<times> int option)" where
  "check_outcomes ts rl domain =
     (case check_times ts rl domain of
        Inl e \<Rightarrow> Inl e
      | Inr (bs, rl') \<Rightarrow> Inr (bs, map_option remaining (stored rl' domain)))"

text \<open>
  Two limiters for the evaluations: two requests per minute with the cache's default time
  to live of an hour, and one request per minute with a time to live of ten seconds.
\<close>

definition limiter2 :: RateLimiter where
  "limiter2 = RateLimiter_init (Some \<lparr> requests = 2, period = 60, burst = None \<rparr>) SLIDING_WINDOW 3600"

definition limiter_short :: RateLimiter where
  "limiter_short = RateLimiter_init (Some \<lparr> requests = 1, period = 60, burst = None \<rparr>) SLIDING_WINDOW 10"

datatype limiter_op =
    Check string
  | Wait string
  | Update string headers

text \<open>
  One operation on the limiter, keeping only the limiter. An operation that raises
  leaves the limiter as it was: every raise of the three operations comes before their
  first write.
\<close>

fun run_op :: "time \<Rightarrow> RateLimiter \<Rightarrow> limiter_op \<Rightarrow> RateLimiter" where
  "run_op now rl (Check d) =
     (case check_rate_limit now rl d of Inl e \<Rightarrow> rl | Inr (b, rl') \<Rightarrow> rl')"
| "run_op now rl (Wait d) =
     (case get_wait_time now rl d of Inl e \<Rightarrow> rl | Inr (w, rl') \<Rightarrow> rl')"
| "run_op now rl (Update d hs) =
     (case update_rate_limit now rl d hs of Inl e \<Rightarrow> rl | Inr rl' \<Rightarrow> rl')"

fun run_ops :: "(time \<times> limiter_op) list \<Rightarrow> RateLimiter \<Rightarrow> RateLimiter" where
  "run_ops [] rl = rl"
| "run_ops ((now, x) # xs) rl = run_ops xs (run_op now rl x)"

definition nonneg_remaining :: "RateLimiter \<Rightarrow> bool" where
  "nonneg_remaining rl = (\<forall>k st. data (cache rl) k = Some st \<longrightarrow> 0 \<le> remaining st)"

text \<open>The remote's \<open>X-RateLimit-Remaining\<close> header, when it parses, is not negative.\<close>

fun remote_remaining_ok :: "limiter_op \<Rightarrow> bool" where
  "remote_remaining_ok (Update d hs) =
     (case map_of hs ''X-RateLimit-Remaining'' of
        None \<Rightarrow> True
      | Some r \<Rightarrow> (case py_int r of Inl e \<Rightarrow> True | Inr n \<Rightarrow> 0 \<le> n))"
| "remote_remaining_ok _ = True"

definition negative_headers :: headers where
  "negative_headers =
     [(''X-RateLimit-Remaining'', ''-1''), (''X-RateLimit-Reset'', ''1700000000''),
      (''X-RateLimit-Limit'', ''100'')]"

subsection \<open>Numbers as text, dictionaries\<close>

text \<open>\<open>str(n)\<close> for an integer: the decimal digits, with a minus sign below zero.\<close>

text \<open>The character of a digit below 16 (lower case from ten on).\<close>

definition digit_char :: "nat \<Rightarrow> char" where
  "digit_char n = ''0123456789abcdef'' ! n"

fun nat_digits :: "nat \<Rightarrow> string" where
  "nat_digits n =
     (if n < 10 then [digit_char n]
      else nat_digits (n div 10) @ [digit_char (n mod 10)])"

declare nat_digits.simps [simp del]

definition py_str_int :: "int \<Rightarrow> string" where
  "py_str_int i = (if i < 0 then CHR ''-'' # nat_digits (nat (- i)) else nat_digits (nat i))"

text \<open>
  A \<open>dict\<close> keeps its keys in insertion order: it is an association list in which
  \<open>d[k] = v\<close> replaces the value in place or appends (\<open>AList.update\<close>) and
  \<open>del d[k]\<close> removes the entry (\<open>AList.delete\<close>).
\<close>

text \<open>\<open>max(xs, key=f)\<close> on a non-empty sequence: the first element with the largest key.\<close>

definition py_max_by :: "('a \<Rightarrow> int) \<Rightarrow> 'a \<Rightarrow> 'a list \<Rightarrow> 'a" where
  "py_max_by f x xs = foldl (\<lambda>m y. if f y > f m then y else m) x xs"

text \<open>The message of an exception, as \<open>str(e)\<close> gives it.\<close>

fun str_error :: "error \<Rightarrow> string" where
  "str_error (KeyError k) = [CHR 0x27] @ k @ [CHR 0x27]"
| "str_error (ValueError m) = m"
| "str_error (TypeError m) = m"
| "str_error (OverflowError m) = m"
| "str_error (AttributeError m) = m"
| "str_error (KeyManagementError m) = m"
| "str_error (SignatureError m) = m"
| "str_error (OtherError m) = m"

section \<open>security/key\_management.py\<close>

text \<open>
  Key material is an opaque byte string. The RSA primitives, SHA-256 and base64 belong to
  libraries outside the repository; the development is parametric in them.
\<close>

type_synonym key_material = string

record crypto =
  public_of :: "key_material \<Rightarrow> key_material"
  rsa_sign :: "key_material \<Rightarrow> string \<Rightarrow> string"
  rsa_verify :: "key_material \<Rightarrow> string \<Rightarrow> string \<Rightarrow> bool"
  sha256 :: "string \<Rightarrow> string"
  b64encode :: "string \<Rightarrow> string"
  b64decode :: "string \<Rightarrow> error + string"

record KeyRotation =
  rotation_interval :: int
  key_overlap :: int
  key_size :: int

definition KeyRotation_default :: KeyRotation where
  "KeyRotation_default = \<lparr> rotation_interval = 30, key_overlap = 2, key_size = 2048 \<rparr>"

record KeyPair =
  private_key :: key_material
  public_key :: key_material
  created_at :: time
  expires_at :: time
  key_id :: string

record KeyManager =
  domain :: string
  keys_path :: string
  rotation_config :: KeyRotation
  active_keys :: "(string \<times> KeyPair) list"

definition KeyManager_init :: "string \<Rightarrow> string \<Rightarrow> KeyRotation option \<Rightarrow> KeyManager" where
  "KeyManager_init d p rc =
     \<lparr> domain = d, keys_path = p,
       rotation_config = (case rc of Some c \<Rightarrow> c | None \<Rightarrow> KeyRotation_default),
       active_keys = [] \<rparr>"

text \<open>
  \<open>int(created_at.timestamp())\<close>: whole seconds since the epoch, truncated towards zero
  (the process is taken to run in UTC).
\<close>

definition timestamp_seconds :: "time \<Rightarrow> int" where
  "timestamp_seconds t = (if 0 \<le> t then t div 1000000 else - ((- t) div 1000000))"

text \<open>
  \<open>generate_key_pair\<close>. \<open>generated\<close> is what \<open>rsa.generate_private_key\<close> does (the new
  private key, or the exception it raises) and \<open>saved\<close> what \<open>_save_key_pair\<close> does on the
  file system. The function returns the manager with the outcome: the manager is mutated in
  place and stays so when a later step raises.
\<close>

definition generate_key_pair ::
  "crypto \<Rightarrow> time \<Rightarrow> error + key_material \<Rightarrow> error + unit \<Rightarrow> KeyManager
     \<Rightarrow> KeyManager \<times> (error + KeyPair)" where
  "generate_key_pair cr now generated saved km =
     (case generated of
        Inl e \<Rightarrow> (km, Inl (KeyManagementError (''Key generation failed: '' @ str_error e)))
      | Inr priv \<Rightarrow>
          (let created = now;
               expires = created + days (rotation_interval (rotation_config km));
               kid = ''https://'' @ domain km @ ''/keys/'' @ py_str_int (timestamp_seconds created);
               key_pair = \<lparr> private_key = priv, public_key = public_of cr priv,
                            created_at = created, expires_at = expires, key_id = kid \<rparr>
           in case saved of
                Inl e \<Rightarrow> (km, Inl (KeyManagementError (''Key generation failed: '' @ str_error e)))
              | Inr _ \<Rightarrow>
                  (km\<lparr> active_keys := AList.update kid key_pair (active_keys km) \<rparr>,
                   Inr key_pair)))"

text \<open>
  The loop of \<open>rotate_keys\<close> over the expired key ids: archive the pair, then delete it from
  the active set. \<open>archived\<close> is what \<open>_archive_key_pair\<close> does for a pair.
\<close>

fun archive_expired ::
  "(KeyPair \<Rightarrow> error + unit) \<Rightarrow> string list \<Rightarrow> (string \<times> KeyPair) list
     \<Rightarrow> (string \<times> KeyPair) list \<times> (error + unit)" where
  "archive_expired archived [] ks = (ks, Inr ())"
| "archive_expired archived (kid # kids) ks =
     (case map_of ks kid of
        None \<Rightarrow> (ks, Inl (KeyError kid))
      | Some pair \<Rightarrow>
          (case archived pair of
             Inl e \<Rightarrow> (ks, Inl e)
           | Inr _ \<Rightarrow> archive_expired archived kids (AList.delete kid ks)))"

text \<open>
  \<open>rotate_keys\<close>. The clock is read twice: at \<open>t_gen\<close> when the new pair is made, and at
  \<open>now\<close> when the expired keys are collected.
\<close>

definition rotate_keys ::
  "crypto \<Rightarrow> time \<Rightarrow> time \<Rightarrow> error + key_material \<Rightarrow> error + unit
     \<Rightarrow> (KeyPair \<Rightarrow> error + unit) \<Rightarrow> KeyManager \<Rightarrow> KeyManager \<times> (error + unit)" where
  "rotate_keys cr t_gen now generated saved archived km =
     (case generate_key_pair cr t_gen generated saved km of
        (km1, Inl e) \<Rightarrow> (km1, Inl (KeyManagementError (''Key rotation failed: '' @ str_error e)))
      | (km1, Inr new_pair) \<Rightarrow>
          (let expired = map fst (filter (\<lambda>(kid, pair).
                             expires_at pair < now - days (key_overlap (rotation_config km1)))
                           (active_keys km1))
           in case archive_expired archived expired (active_keys km1) of
                (ks, Inl e) \<Rightarrow>
                  (km1\<lparr> active_keys := ks \<rparr>,
                   Inl (KeyManagementError (''Key rotation failed: '' @ str_error e)))
              | (ks, Inr _) \<Rightarrow> (km1\<lparr> active_keys := ks \<rparr>, Inr ())))"

definition get_active_key :: "KeyManager \<Rightarrow> error + KeyPair" where
  "get_active_key km =
     (case map snd (active_keys km) of
        [] \<Rightarrow> Inl (KeyManagementError ''No active keys available'')
      | k # ks \<Rightarrow> Inr (py_max_by created_at k ks))"

definition get_active_private_key :: "KeyManager \<Rightarrow> error + key_material" where
  "get_active_private_key km =
     (case map snd (active_keys km) of
        [] \<Rightarrow> Inl (KeyManagementError ''No active keys available'')
      | k # ks \<Rightarrow> Inr (private_key (py_max_by created_at k ks)))"

section \<open>More of Python's strings\<close>

text \<open>
  A \<open>str\<close> is a list of code points below 256. \<open>str.lower()\<close> changes the capital
  letters among them (65 to 90, and 192 to 222 except 215) by setting the bit of weight 32.
\<close>

fun lower_char :: "char \<Rightarrow> char" where
  "lower_char (Char b0 b1 b2 b3 b4 b5 b6 b7) =
     (let n = (of_char (Char b0 b1 b2 b3 b4 b5 b6 b7) :: nat)
      in if (65 \<le> n \<and> n \<le> 90) \<or> (192 \<le> n \<and> n \<le> 222 \<and> n \<noteq> 215)
         then Char b0 b1 b2 b3 b4 True b6 b7
         else Char b0 b1 b2 b3 b4 b5 b6 b7)"

definition py_lower :: "string \<Rightarrow> string" where
  "py_lower s = map lower_char s"

text \<open>\<open>s.encode('utf-8')\<close>: a code point from 128 on takes two bytes.\<close>

fun utf8_char :: "char \<Rightarrow> string" where
  "utf8_char (Char b0 b1 b2 b3 b4 b5 b6 b7) =
     (if b7 then [Char b6 b7 False False False False True True,
                  Char b0 b1 b2 b3 b4 b5 False True]
      else [Char b0 b1 b2 b3 b4 b5 b6 b7])"

definition utf8_encode :: "string \<Rightarrow> string" where
  "utf8_encode s = concat (map utf8_char s)"

text \<open>
  Splitting at every character that satisfies \<open>p\<close>; the result is never empty.
  \<open>s.split(',')\<close> splits at the commas and keeps empty pieces; \<open>s.split()\<close> splits at
  white space and drops them.
\<close>

fun py_split_where :: "(char \<Rightarrow> bool) \<Rightarrow> string \<Rightarrow> string list" where
  "py_split_where p [] = [[]]"
| "py_split_where p (c # cs) =
     (if p c then [] # py_split_where p cs
      else (case py_split_where p cs of
              [] \<Rightarrow> [[c]]
            | w # ws \<Rightarrow> (c # w) # ws))"

definition py_split :: "char \<Rightarrow> string \<Rightarrow> string list" where
  "py_split sep s = py_split_where (\<lambda>c. c = sep) s"

definition py_split_ws :: "string \<Rightarrow> string list" where
  "py_split_ws s = filter (\<lambda>w. w \<noteq> []) (py_split_where is_space s)"

text \<open>\<open>sep.join(xs)\<close>.\<close>

fun py_join :: "string \<Rightarrow> string list \<Rightarrow> string" where
  "py_join sep [] = []"
| "py_join sep [x] = x"
| "py_join sep (x # y # ys) = x @ sep @ py_join sep (y # ys)"

section \<open>JSON values and \<open>json.dumps\<close>\<close>

text \<open>
  The values \<open>json.dumps\<close> can serialize, without floats. An object keeps its members in
  the order of the \<open>dict\<close>.
\<close>

datatype json =
    JNull
  | JBool bool
  | JInt int
  | JStr string
  | JList "json list"
  | JObj "(string \<times> json) list"

definition hex_digit :: "nat \<Rightarrow> char" where
  "hex_digit n = digit_char n"

text \<open>
  One character of a string under \<open>ensure_ascii=True\<close>: the quote and the backslash are
  escaped, the control characters 8, 9, 10, 12 and 13 have short escapes, and everything
  else outside 32 to 126 is written \<open>\u00XX\<close>.
\<close>

definition json_escape_char :: "char \<Rightarrow> string" where
  "json_escape_char c =
     (let n = (of_char c :: nat)
      in if n = 34 then [CHR 0x5C, CHR 0x22]
         else if n = 92 then [CHR 0x5C, CHR 0x5C]
         else if n = 10 then [CHR 0x5C, CHR ''n'']
         else if n = 13 then [CHR 0x5C, CHR ''r'']
         else if n = 9 then [CHR 0x5C, CHR ''t'']
         else if n = 8 then [CHR 0x5C, CHR ''b'']
         else if n = 12 then [CHR 0x5C, CHR ''f'']
         else if 32 \<le> n \<and> n \<le> 126 then [c]
         else [CHR 0x5C, CHR ''u'', CHR ''0'', CHR ''0'', hex_digit (n div 16), hex_digit (n mod 16)])"

definition json_string :: "string \<Rightarrow> string" where
  "json_string s = [CHR 0x22] @ concat (map json_escape_char s) @ [CHR 0x22]"

text \<open>The order of \<open>sorted\<close> on strings: lexicographic on the code points.\<close>

fun str_less :: "string \<Rightarrow> string \<Rightarrow> bool" where
  "str_less [] [] = False"
| "str_less [] (d # ds) = True"
| "str_less (c # cs) [] = False"
| "str_less (c # cs) (d # ds) =
     ((of_char c :: nat) < of_char d \<or> (c = d \<and> str_less cs ds))"

fun insert_by_key :: "string \<times> 'a \<Rightarrow> (string \<times> 'a) list \<Rightarrow> (string \<times> 'a) list" where
  "insert_by_key kv [] = [kv]"
| "insert_by_key kv (x # xs) =
     (if str_less (fst kv) (fst x) then kv # x # xs else x # insert_by_key kv xs)"

definition sort_by_key :: "(string \<times> 'a) list \<Rightarrow> (string \<times> 'a) list" where
  "sort_by_key kvs = foldr insert_by_key kvs []"

text \<open>
  \<open>json.dumps(v, sort_keys=True, ensure_ascii=True, separators=(item_sep, key_sep))\<close>.
  The members of an object are rendered, then put in the order of their keys.
\<close>

primrec py_json_dumps :: "string \<Rightarrow> string \<Rightarrow> json \<Rightarrow> string" where
  "py_json_dumps item_sep key_sep JNull = ''null''"
| "py_json_dumps item_sep key_sep (JBool b) = (if b then ''true'' else ''false'')"
| "py_json_dumps item_sep key_sep (JInt i) = py_str_int i"
| "py_json_dumps item_sep key_sep (JStr s) = json_string s"
| "py_json_dumps item_sep key_sep (JList xs) =
     ''['' @ py_join item_sep (map (py_json_dumps item_sep key_sep) xs) @ '']''"
| "py_json_dumps item_sep key_sep (JObj kvs) =
     ''{'' @ py_join item_sep
              (map (\<lambda>(k, r). json_string k @ key_sep @ r)
                 (sort_by_key (map (map_prod id (py_json_dumps item_sep key_sep)) kvs)))
      @ ''}''"

text \<open>\<open>json.dumps(body, sort_keys=True)\<close>, with the default separators.\<close>

definition json_dumps_sorted :: "json \<Rightarrow> string" where
  "json_dumps_sorted v = py_json_dumps '', '' '': '' v"

text \<open>\<open>ActivityPubSerializer.to_json_string\<close> (serializers/json\_serializer.py).\<close>

definition to_json_string :: "json \<Rightarrow> string" where
  "to_json_string v = py_json_dumps '','' '':'' v"

section \<open>security/http\_signatures.py\<close>

text \<open>
  The verifier object. \<open>verifier_private_key\<close>, \<open>verifier_public_key\<close> and
  \<open>verifier_key_id\<close> are the attributes \<open>private_key\<close>, \<open>public_key\<close> and \<open>key_id\<close> of
  the class; the first two exist only when the constructor loaded them from the key paths.
  The signature cache of the class is used by none of its methods and is left out.
\<close>

record HTTPSignatureVerifier =
  key_manager :: "KeyManager option"
  private_key_path :: string
  public_key_path :: string
  verifier_key_id :: "string option"
  verifier_private_key :: "key_material option"
  verifier_public_key :: "key_material option"
  test_now :: "time option"

definition set_test_time :: "time \<Rightarrow> HTTPSignatureVerifier \<Rightarrow> HTTPSignatureVerifier" where
  "set_test_time t v = v\<lparr> test_now := Some t \<rparr>"

definition has_key :: "('k \<times> 'v) list \<Rightarrow> 'k \<Rightarrow> bool" where
  "has_key d k = (map_of d k \<noteq> None)"

definition generate_digest :: "crypto \<Rightarrow> json \<Rightarrow> string" where
  "generate_digest cr body =
     ''SHA-256='' @ b64encode cr (sha256 cr (utf8_encode (to_json_string body)))"

text \<open>\<open>{k.lower(): v for k, v in headers.items()}\<close>\<close>

definition lower_keys :: "headers \<Rightarrow> headers" where
  "lower_keys hs = fold (\<lambda>(k, v) d. AList.update (py_lower k) v d) hs []"

definition request_target_line :: "string \<Rightarrow> string \<Rightarrow> string" where
  "request_target_line method path = ''(request-target): '' @ py_lower method @ '' '' @ path"

text \<open>The loop of \<open>_build_signing_string\<close> over the headers to sign.\<close>

fun signing_lines :: "string \<Rightarrow> string \<Rightarrow> headers \<Rightarrow> string list \<Rightarrow> error + string list" where
  "signing_lines method path headers_lower [] = Inr []"
| "signing_lines method path headers_lower (header # rest) =
     (if header = ''(request-target)''
      then (case signing_lines method path headers_lower rest of
              Inl e \<Rightarrow> Inl e
            | Inr ls \<Rightarrow> Inr (request_target_line method path # ls))
      else (case map_of headers_lower (py_lower header) of
              None \<Rightarrow> Inl (SignatureError (''Missing required header: '' @ header))
            | Some v \<Rightarrow>
                (case signing_lines method path headers_lower rest of
                   Inl e \<Rightarrow> Inl e
                 | Inr ls \<Rightarrow> Inr ((py_lower header @ '': '' @ v) # ls))))"

definition build_signing_string ::
  "string \<Rightarrow> string \<Rightarrow> headers \<Rightarrow> string list \<Rightarrow> error + string" where
  "build_signing_string method path hs signed_headers =
     (case signing_lines method path (lower_keys hs) signed_headers of
        Inl e \<Rightarrow> Inl (SignatureError (''Failed to build signing string: '' @ str_error e))
      | Inr ls \<Rightarrow> Inr (py_join [CHR 0x0A] ls))"

text \<open>The private key and key id that \<open>sign_request\<close> signs with.\<close>

definition signing_key :: "HTTPSignatureVerifier \<Rightarrow> error + (key_material \<times> string)" where
  "signing_key v =
     (case key_manager v of
        Some km \<Rightarrow>
          (case get_active_private_key km of
             Inl e \<Rightarrow> Inl e
           | Inr pk \<Rightarrow>
               (case get_active_key km of
                  Inl e \<Rightarrow> Inl e
                | Inr active_key \<Rightarrow> Inr (pk, key_id active_key)))
      | None \<Rightarrow>
          (case verifier_private_key v of
             None \<Rightarrow> Inl (AttributeError ''private_key'')
           | Some pk \<Rightarrow>
               Inr (pk, case verifier_key_id v of None \<Rightarrow> ''None'' | Some k \<Rightarrow> k)))"

definition headers_to_sign :: "string list" where
  "headers_to_sign = [''(request-target)'', ''host'', ''date'', ''digest'']"

definition signature_header_value :: "string \<Rightarrow> string list \<Rightarrow> string \<Rightarrow> string" where
  \<open>signature_header_value kid hs sig_b64 =
     ''keyId="'' @ kid @ ''",algorithm="rsa-sha256",headers="'' @ py_join '' '' hs
       @ ''",signature="'' @ sig_b64 @ ''"''\<close>

text \<open>
  \<open>sign_request\<close>. \<open>strftime\<close> renders a datetime as
  \<open>'%a, %d %b %Y %H:%M:%S GMT'\<close>; \<open>now\<close> is \<open>datetime.utcnow()\<close>. Every exception
  inside becomes a \<open>SignatureError\<close>.
\<close>

definition sign_request ::
  "crypto \<Rightarrow> (time \<Rightarrow> string) \<Rightarrow> time \<Rightarrow> HTTPSignatureVerifier
     \<Rightarrow> string \<Rightarrow> string \<Rightarrow> headers \<Rightarrow> json option \<Rightarrow> error + headers" where
  "sign_request cr strftime now v method path hs body =
     (let request_headers =
            (if has_key hs ''date'' then hs
             else AList.update ''date''
                    (strftime (case test_now v of Some t \<Rightarrow> t | None \<Rightarrow> now)) hs);
          request_headers =
            (case body of
               None \<Rightarrow> request_headers
             | Some b \<Rightarrow> AList.update ''digest'' (generate_digest cr b) request_headers)
      in case build_signing_string method path request_headers headers_to_sign of
           Inl e \<Rightarrow> Inl (SignatureError (''Request signing failed: '' @ str_error e))
         | Inr signing_string \<Rightarrow>
             (case signing_key v of
                Inl e \<Rightarrow> Inl (SignatureError (''Request signing failed: '' @ str_error e))
              | Inr (pk, kid) \<Rightarrow>
                  (let signature = rsa_sign cr pk (utf8_encode signing_string);
                       signature_header =
                         signature_header_value kid headers_to_sign (b64encode cr signature)
                   in Inr (AList.update ''Signature'' signature_header request_headers))))"

text \<open>
  The loop of \<open>verify_request\<close> that parses the \<open>Signature\<close> header: the pieces between
  commas, each cut at its first \<open>=\<close>.
\<close>

definition parse_part :: "string \<Rightarrow> (string \<times> string) list \<Rightarrow> (string \<times> string) list" where
  "parse_part part sig_parts =
     (if CHR ''='' \<notin> set part then sig_parts
      else AList.update
             (py_strip (takeWhile (\<lambda>c. c \<noteq> CHR ''='') part))
             (py_strip_chars (\<lambda>c. c = CHR '' '' \<or> c = CHR 0x22)
                (tl (dropWhile (\<lambda>c. c \<noteq> CHR ''='') part)))
             sig_parts)"

definition parse_signature_parts :: "string \<Rightarrow> (string \<times> string) list" where
  "parse_signature_parts s = fold parse_part (py_split CHR '','' s) []"

text \<open>The loop of \<open>verify_request\<close> over the declared headers.\<close>

fun declared_lines :: "string \<Rightarrow> string \<Rightarrow> headers \<Rightarrow> string list \<Rightarrow> string list" where
  "declared_lines method path hs [] = []"
| "declared_lines method path hs (header # rest) =
     (if header = ''(request-target)''
      then request_target_line method path # declared_lines method path hs rest
      else (case map_of hs header of
              Some v \<Rightarrow> (header @ '': '' @ v) # declared_lines method path hs rest
            | None \<Rightarrow> declared_lines method path hs rest))"

definition expected_digest :: "crypto \<Rightarrow> json \<Rightarrow> string" where
  "expected_digest cr body =
     ''SHA-256='' @ b64encode cr (sha256 cr (utf8_encode (json_dumps_sorted body)))"

text \<open>
  \<open>verify_request\<close>. The call \<open>self._get_public_key(key_id)\<close> is the parameter
  \<open>get_public_key\<close>, which resolves a key id to a public key, to nothing, or raises; the
  class as it is has no such attribute, see \<open>absent_get_public_key\<close> below.
  \<open>base64.b64decode\<close> raises on malformed input. Every exception gives \<open>False\<close>.
\<close>

definition verify_request ::
  "crypto \<Rightarrow> (string \<Rightarrow> error + key_material option) \<Rightarrow> HTTPSignatureVerifier
     \<Rightarrow> headers \<Rightarrow> string \<Rightarrow> string \<Rightarrow> json option \<Rightarrow> bool" where
  "verify_request cr get_public_key v hs method path body =
     (case map_of hs ''signature'' of
        None \<Rightarrow> False
      | Some sig_header \<Rightarrow>
          (let sig_parts = parse_signature_parts sig_header
           in case (map_of sig_parts ''keyId'', map_of sig_parts ''headers'',
                    map_of sig_parts ''signature'') of
                (Some kid, Some declared, Some sig_b64) \<Rightarrow>
                  if kid = [] then False
                  else if (case (body, map_of hs ''digest'') of
                             (Some b, Some d) \<Rightarrow> d \<noteq> expected_digest cr b
                           | _ \<Rightarrow> False)
                  then False
                  else
                    (let signing_string =
                           py_join [CHR 0x0A]
                             (declared_lines method path hs (py_split_ws declared))
                     in case get_public_key kid of
                          Inl e \<Rightarrow> False
                        | Inr None \<Rightarrow> False
                        | Inr (Some pub) \<Rightarrow>
                            (case b64decode cr sig_b64 of
                               Inl e \<Rightarrow> False
                             | Inr signature \<Rightarrow>
                                 rsa_verify cr pub signature (utf8_encode signing_string)))
              | _ \<Rightarrow> False))"

text \<open>
  Neither the class nor anything else in the package defines \<open>_get_public_key\<close>: the
  lookup of the attribute on the verifier raises \<open>AttributeError\<close>, for every key id.
  A request is verified by the class as it is with \<open>verify_request cr absent_get_public_key\<close>.
\<close>

definition absent_get_public_key :: "string \<Rightarrow> error + key_material option" where
  "absent_get_public_key kid =
     Inl (AttributeError ''HTTPSignatureVerifier object has no attribute _get_public_key'')"

text \<open>
  \<open>_verify_date\<close>. \<open>strptime\<close> parses \<open>'%a, %d %b %Y %H:%M:%S GMT'\<close> and gives
  nothing where \<open>datetime.strptime\<close> raises.
\<close>

definition verify_date ::
  "(string \<Rightarrow> time option) \<Rightarrow> time \<Rightarrow> HTTPSignatureVerifier \<Rightarrow> string option \<Rightarrow> bool" where
  "verify_date strptime now v date_header =
     (case date_header of
        None \<Rightarrow> False
      | Some d \<Rightarrow>
          if d = [] then False
          else (case strptime d of
                  None \<Rightarrow> False
                | Some request_time \<Rightarrow>
                    (let n = (case test_now v of Some t \<Rightarrow> t | None \<Rightarrow> now);
                         skew = minutes 5;
                         earliest = n - skew;
                         latest = n + skew
                     in earliest \<le> request_time \<and> request_time \<le> latest)))"

section \<open>federation/delivery.py\<close>

record DeliveryResult =
  success :: "string list"
  failed :: "string list"
  status_code :: "int option"
  error_message :: "string option"
  retry_after :: "int option"

definition DeliveryResult_init :: DeliveryResult where
  "DeliveryResult_init =
     \<lparr> success = [], failed = [], status_code = None, error_message = None,
       retry_after = None \<rparr>"

text \<open>
  What the HTTP client does with one POST: a response (status, headers, and the text of the
  body or the exception that reading it raises), a timeout, or another exception.
\<close>

record response =
  resp_status :: int
  resp_headers :: headers
  resp_text :: "error + string"

datatype post_outcome = Responded response | TimedOut | Raised error

text \<open>
  The world around a delivery: \<open>env_urlparse\<close> gives the \<open>netloc\<close> and the \<open>path\<close> of a
  URL, \<open>env_server\<close> the outcome of the \<open>n\<close>-th POST (counted from 0), \<open>env_strftime\<close>
  the date format of \<open>sign_request\<close>.
\<close>

record delivery_env =
  env_urlparse :: "string \<Rightarrow> string \<times> string"
  env_server :: "nat \<Rightarrow> post_outcome"
  env_strftime :: "time \<Rightarrow> string"

text \<open>
  The delivery service, with the clock and the number of POSTs made so far. The discovery
  service and the HTTP session of the class are outside the model.
\<close>

record ActivityDelivery =
  signature_verifier :: HTTPSignatureVerifier
  rate_limiter :: RateLimiter
  timeout :: int
  max_retries :: int
  retry_delay :: int
  max_concurrent :: int
  clock :: time
  posts :: nat

text \<open>\<open>asyncio.sleep\<close>: a delay that is not positive returns at once.\<close>

definition sleep :: "time \<Rightarrow> ActivityDelivery \<Rightarrow> ActivityDelivery" where
  "sleep delay s = s\<lparr> clock := clock s + max 0 delay \<rparr>"

definition delivery_headers :: "string \<Rightarrow> headers" where
  "delivery_headers netloc =
     [(''Content-Type'', ''application/activity+json''),
      (''User-Agent'', ''PyFed/1.0''),
      (''Accept'', ''application/activity+json''),
      (''Host'', netloc)]"

text \<open>The two \<open>except\<close> clauses of \<open>deliver_to_inbox\<close>.\<close>

definition failed_with :: "DeliveryResult \<Rightarrow> string \<Rightarrow> string \<Rightarrow> DeliveryResult" where
  "failed_with result inbox_url msg =
     result\<lparr> failed := failed result @ [inbox_url], error_message := Some msg \<rparr>"

text \<open>
  The rate limit gate at the head of \<open>deliver_to_inbox\<close>: when the check denies, sleep
  for the wait time and go on.
\<close>

definition rate_limit_gate :: "ActivityDelivery \<Rightarrow> string \<Rightarrow> error + ActivityDelivery" where
  "rate_limit_gate s netloc =
     (case check_rate_limit (clock s) (rate_limiter s) netloc of
        Inl e \<Rightarrow> Inl e
      | Inr (True, rl) \<Rightarrow> Inr (s\<lparr> rate_limiter := rl \<rparr>)
      | Inr (False, rl) \<Rightarrow>
          (case get_wait_time (clock s) rl netloc of
             Inl e \<Rightarrow> Inl e
           | Inr (wait_time, rl') \<Rightarrow> Inr (sleep wait_time (s\<lparr> rate_limiter := rl' \<rparr>))))"

text \<open>\<open>int(response.headers.get('Retry-After', self.retry_delay))\<close>\<close>

definition retry_after_of :: "ActivityDelivery \<Rightarrow> response \<Rightarrow> error + int" where
  "retry_after_of s r =
     (case map_of (resp_headers r) ''Retry-After'' of
        None \<Rightarrow> Inr (retry_delay s)
      | Some t \<Rightarrow> py_int t)"

text \<open>
  \<open>deliver_to_inbox\<close>. The recursion of the source has no bound of its own, so the model
  counts it down from \<open>fuel\<close>: \<open>None\<close> means that the call has not returned within
  \<open>fuel\<close> nested calls. The service is returned with the result, as the limiter, the clock
  and the count of POSTs change on the way.
\<close>

fun deliver_to_inbox ::
  "nat \<Rightarrow> crypto \<Rightarrow> delivery_env \<Rightarrow> ActivityDelivery \<Rightarrow> json \<Rightarrow> string \<Rightarrow> int
     \<Rightarrow> (DeliveryResult \<times> ActivityDelivery) option" where
  "deliver_to_inbox 0 cr env s activity inbox_url retry_count = None"
| "deliver_to_inbox (Suc fuel) cr env s activity inbox_url retry_count =
     (let (netloc, url_path) = env_urlparse env inbox_url;
          result = DeliveryResult_init
      in case rate_limit_gate s netloc of
           Inl e \<Rightarrow> Some (failed_with result inbox_url (str_error e), s)
         | Inr s1 \<Rightarrow>
             (case sign_request cr (env_strftime env) (clock s1) (signature_verifier s1)
                     ''POST'' url_path (delivery_headers netloc) (Some activity) of
                Inl e \<Rightarrow> Some (failed_with result inbox_url (str_error e), s1)
              | Inr signed_headers \<Rightarrow>
                  (let body_json = to_json_string activity;
                       s2 = s1\<lparr> posts := Suc (posts s1) \<rparr>
                   in case env_server env (posts s1) of
                        TimedOut \<Rightarrow> Some (failed_with result inbox_url ''Delivery timeout'', s2)
                      | Raised e \<Rightarrow> Some (failed_with result inbox_url (str_error e), s2)
                      | Responded r \<Rightarrow>
                          (case update_rate_limit (clock s2) (rate_limiter s2) netloc
                                  (resp_headers r) of
                             Inl e \<Rightarrow> Some (failed_with result inbox_url (str_error e), s2)
                           | Inr rl \<Rightarrow>
                               (let s3 = s2\<lparr> rate_limiter := rl \<rparr>
                                in if resp_status r = 200 \<or> resp_status r = 201
                                      \<or> resp_status r = 202
                                   then Some (result\<lparr> success := success result @ [inbox_url],
                                                      status_code := Some (resp_status r) \<rparr>, s3)
                                   else if resp_status r = 429
                                          \<or> (resp_status r \<ge> 500 \<and> retry_count < max_retries s3)
                                   then (case retry_after_of s3 r of
                                           Inl e \<Rightarrow>
                                             Some (failed_with result inbox_url (str_error e), s3)
                                         | Inr delay \<Rightarrow>
                                             deliver_to_inbox fuel cr env (sleep (seconds delay) s3)
                                               activity inbox_url (retry_count + 1))
                                   else (let result1 =
                                               result\<lparr> failed := failed result @ [inbox_url],
                                                        status_code := Some (resp_status r) \<rparr>
                                         in case resp_text r of
                                              Inl e \<Rightarrow>
                                                Some (failed_with result1 inbox_url (str_error e), s3)
                                            | Inr txt \<Rightarrow>
                                                Some (result1\<lparr> error_message := Some txt \<rparr>,
                                                      s3)))))))"

section \<open>federation/queue.py\<close>

datatype DeliveryStatus = PENDING | IN_PROGRESS | COMPLETED | FAILED | RETRYING

text \<open>
  The values that the fields of a \<open>QueuedDelivery\<close> hold at run time: what
  \<open>json.loads\<close> gave, a member of the enum, or a \<open>datetime\<close>.
\<close>

datatype pyval = PJson json | PStatus DeliveryStatus | PDatetime time

record QueuedDelivery =
  qd_id :: pyval
  activity :: pyval
  recipients :: pyval
  status :: pyval
  attempts :: pyval
  next_attempt :: pyval
  qd_created_at :: pyval
  qd_updated_at :: pyval
  qd_error :: pyval

text \<open>
  The Redis store: the string values by key, each held as the JSON value its text encodes,
  and the sorted set \<open>delivery_queue\<close> with the score of each member.
\<close>

record redis =
  kv :: "string \<rightharpoonup> json"
  zset :: "string \<rightharpoonup> time"

record DeliveryQueue =
  max_attempts :: int
  batch_size :: int
  store :: redis

text \<open>
  What \<open>delivery_service.deliver_activity\<close> does. \<open>ActivityDelivery\<close> has no method of
  that name; the call is a parameter of the model.
\<close>

datatype delivery_outcome = Returned DeliveryResult | Threw error

definition field_names :: "string list" where
  "field_names = [''id'', ''activity'', ''recipients'', ''status'', ''attempts'',
                  ''next_attempt'', ''created_at'', ''updated_at'', ''error'']"

text \<open>
  \<open>QueuedDelivery(**json.loads(data))\<close>: the data must be an object whose keys are field
  names, with every field but \<open>error\<close> present.
\<close>

definition QueuedDelivery_of :: "json \<Rightarrow> error + QueuedDelivery" where
  "QueuedDelivery_of j =
     (case j of
        JObj kvs \<Rightarrow>
          if \<not> list_all (\<lambda>k. k \<in> set field_names) (map fst kvs)
          then Inl (TypeError ''unexpected keyword argument'')
          else (case (map_of kvs ''id'', map_of kvs ''activity'', map_of kvs ''recipients'',
                      map_of kvs ''status'', map_of kvs ''attempts'', map_of kvs ''next_attempt'',
                      map_of kvs ''created_at'', map_of kvs ''updated_at'') of
                  (Some i, Some a, Some r, Some s, Some n, Some t, Some c, Some u) \<Rightarrow>
                    Inr \<lparr> qd_id = PJson i, activity = PJson a, recipients = PJson r,
                          status = PJson s, attempts = PJson n, next_attempt = PJson t,
                          qd_created_at = PJson c, qd_updated_at = PJson u,
                          qd_error = PJson (case map_of kvs ''error'' of
                                              None \<Rightarrow> JNull | Some e \<Rightarrow> e) \<rparr>
                | _ \<Rightarrow> Inl (TypeError ''missing required argument''))
      | _ \<Rightarrow> Inl (TypeError ''argument after ** must be a mapping''))"

text \<open>\<open>delivery.__dict__\<close>\<close>

definition to_dict :: "QueuedDelivery \<Rightarrow> (string \<times> pyval) list" where
  "to_dict d =
     [(''id'', qd_id d), (''activity'', activity d), (''recipients'', recipients d),
      (''status'', status d), (''attempts'', attempts d), (''next_attempt'', next_attempt d),
      (''created_at'', qd_created_at d), (''updated_at'', qd_updated_at d),
      (''error'', qd_error d)]"

text \<open>
  \<open>json.dumps\<close> of a dict of such values: a member of a plain \<open>Enum\<close> and a
  \<open>datetime\<close> are not serializable, and \<open>json.dumps\<close> raises \<open>TypeError\<close> for them.
\<close>

fun json_of_pyval :: "pyval \<Rightarrow> error + json" where
  "json_of_pyval (PJson j) = Inr j"
| "json_of_pyval (PStatus s) =
     Inl (TypeError ''Object of type DeliveryStatus is not JSON serializable'')"
| "json_of_pyval (PDatetime t) =
     Inl (TypeError ''Object of type datetime is not JSON serializable'')"

fun json_dumps_items :: "(string \<times> pyval) list \<Rightarrow> error + (string \<times> json) list" where
  "json_dumps_items [] = Inr []"
| "json_dumps_items ((k, v) # kvs) =
     (case json_of_pyval v of
        Inl e \<Rightarrow> Inl e
      | Inr j \<Rightarrow>
          (case json_dumps_items kvs of
             Inl e \<Rightarrow> Inl e
           | Inr js \<Rightarrow> Inr ((k, j) # js)))"

definition json_dumps_dict :: "(string \<times> pyval) list \<Rightarrow> error + json" where
  "json_dumps_dict d = (case json_dumps_items d of Inl e \<Rightarrow> Inl e | Inr js \<Rightarrow> Inr (JObj js))"

text \<open>\<open>delivery.attempts += 1\<close> and the value as a number.\<close>

definition incremented :: "pyval \<Rightarrow> error + int" where
  "incremented v =
     (case v of
        PJson (JInt n) \<Rightarrow> Inr (n + 1)
      | PJson (JBool b) \<Rightarrow> Inr (if b then 2 else 1)
      | _ \<Rightarrow> Inl (TypeError ''unsupported operand type(s) for +=''))"

text \<open>
  \<open>datetime.utcnow() + timedelta(minutes=2 ** attempts)\<close>. A \<open>timedelta\<close> holds at
  most 999999999 days and a \<open>datetime\<close> ends with the year 9999; beyond them Python
  raises \<open>OverflowError\<close>. Below zero \<open>2 ** attempts\<close> is a fraction, rounded to the
  microsecond.
\<close>

definition backoff_delta :: "int \<Rightarrow> error + time" where
  "backoff_delta n =
     (if 0 \<le> n
      then (if minutes (2 ^ nat n) > days 1000000000 - 1
            then Inl (OverflowError ''days out of range for timedelta'')
            else Inr (minutes (2 ^ nat n)))
      else Inr ((60000000 + 2 ^ (nat (- n) - 1)) div 2 ^ nat (- n)))"

definition next_attempt_at :: "time \<Rightarrow> int \<Rightarrow> error + time" where
  "next_attempt_at now n =
     (case backoff_delta n of
        Inl e \<Rightarrow> Inl e
      | Inr delta \<Rightarrow>
          if now + delta > 253402300799999999
          then Inl (OverflowError ''date value out of range'')
          else Inr (now + delta))"

definition zadd :: "redis \<Rightarrow> string \<Rightarrow> time \<Rightarrow> redis" where
  "zadd r member score = r\<lparr> zset := (zset r)(member \<mapsto> score) \<rparr>"

definition zrem :: "redis \<Rightarrow> string \<Rightarrow> redis" where
  "zrem r member = r\<lparr> zset := (zset r)(member := None) \<rparr>"

definition optional_str :: "string option \<Rightarrow> pyval" where
  "optional_str m = PJson (case m of None \<Rightarrow> JNull | Some s \<Rightarrow> JStr s)"

text \<open>
  The inner \<open>try\<close> of \<open>_process_delivery\<close>: the delivery attempt and the bookkeeping of
  its outcome. \<open>n\<close> is the number of attempts after the increment.
\<close>

definition attempt_delivery ::
  "(pyval \<Rightarrow> pyval \<Rightarrow> delivery_outcome) \<Rightarrow> time \<Rightarrow> int \<Rightarrow> string \<Rightarrow> int
     \<Rightarrow> QueuedDelivery \<Rightarrow> redis \<Rightarrow> QueuedDelivery \<times> redis" where
  "attempt_delivery deliver_activity now max_n delivery_id n d r =
     (case deliver_activity (activity d) (recipients d) of
        Threw e \<Rightarrow> (d\<lparr> status := PStatus FAILED, qd_error := PJson (JStr (str_error e)) \<rparr>, r)
      | Returned result \<Rightarrow>
          if success result \<noteq> [] then (d\<lparr> status := PStatus COMPLETED \<rparr>, r)
          else
            (let d1 = d\<lparr> status := PStatus FAILED,
                          qd_error := optional_str (error_message result) \<rparr>
             in if n < max_n
                then (case next_attempt_at now n of
                        Inl e \<Rightarrow>
                          (d1\<lparr> status := PStatus FAILED,
                               qd_error := PJson (JStr (str_error e)) \<rparr>, r)
                      | Inr t \<Rightarrow>
                          (d1\<lparr> status := PStatus RETRYING, next_attempt := PDatetime t \<rparr>,
                           zadd r delivery_id t))
                else (d1, r)))"

text \<open>
  \<open>_process_delivery\<close>. Every exception of the outer \<open>try\<close> is logged and the function
  returns; what was written to Redis before stays written.
\<close>

definition process_delivery ::
  "(pyval \<Rightarrow> pyval \<Rightarrow> delivery_outcome) \<Rightarrow> time \<Rightarrow> DeliveryQueue \<Rightarrow> string
     \<Rightarrow> DeliveryQueue" where
  "process_delivery deliver_activity now q delivery_id =
     (case kv (store q) (''delivery:'' @ delivery_id) of
        None \<Rightarrow> q
      | Some raw \<Rightarrow>
          (case QueuedDelivery_of raw of
             Inl e \<Rightarrow> q
           | Inr d0 \<Rightarrow>
               (case incremented (attempts d0) of
                  Inl e \<Rightarrow> q
                | Inr n \<Rightarrow>
                    (let d1 = d0\<lparr> status := PStatus IN_PROGRESS, attempts := PJson (JInt n),
                                   qd_updated_at := PDatetime now \<rparr>;
                         (d2, r1) = attempt_delivery deliver_activity now (max_attempts q)
                                      delivery_id n d1 (store q)
                     in case json_dumps_dict (to_dict d2) of
                          Inl e \<Rightarrow> q\<lparr> store := r1 \<rparr>
                        | Inr dumped \<Rightarrow>
                            (let r2 = r1\<lparr> kv := (kv r1)(''delivery:'' @ delivery_id \<mapsto> dumped) \<rparr>;
                                 r3 = (if status d2 = PStatus COMPLETED
                                          \<or> status d2 = PStatus FAILED
                                       then zrem r2 delivery_id else r2)
                             in q\<lparr> store := r3 \<rparr>)))))"

section \<open>Stand-ins for the libraries, for running the definitions\<close>

definition hex_encode :: "string \<Rightarrow> string" where
  "hex_encode s =
     concat (map (\<lambda>c. [hex_digit ((of_char c :: nat) div 16), hex_digit ((of_char c :: nat) mod 16)]) s)"

definition hex_val :: "char \<Rightarrow> nat option" where
  "hex_val c =
     (let n = (of_char c :: nat)
      in if 48 \<le> n \<and> n \<le> 57 then Some (n - 48)
         else if 97 \<le> n \<and> n \<le> 102 then Some (n - 87)
         else None)"

definition byte_of_nibbles :: "nat \<Rightarrow> nat \<Rightarrow> char" where
  "byte_of_nibbles a b =
     Char (odd b) (odd (b div 2)) (odd (b div 4)) (odd (b div 8))
          (odd a) (odd (a div 2)) (odd (a div 4)) (odd (a div 8))"

fun hex_decode :: "string \<Rightarrow> error + string" where
  "hex_decode [] = Inr []"
| "hex_decode [c] = Inl (ValueError ''Incorrect padding'')"
| "hex_decode (c # d # cs) =
     (case (hex_val c, hex_val d) of
        (Some a, Some b) \<Rightarrow>
          (case hex_decode cs of
             Inl e \<Rightarrow> Inl e
           | Inr r \<Rightarrow> Inr (byte_of_nibbles a b # r))
      | _ \<Rightarrow> Inl (ValueError ''Invalid character''))"

text \<open>
  A stand-in for the external primitives, used only to run the definitions on concrete
  inputs. It is correct (a signature verifies under the public key of the private key that
  made it, for the signed message only) and has no secrecy. Hexadecimal digits stand for base64.
\<close>

definition standin_crypto :: crypto where
  "standin_crypto =
     \<lparr> public_of = (\<lambda>k. ''pub:'' @ k),
       rsa_sign = (\<lambda>k m. ''sig['' @ k @ '']'' @ m),
       rsa_verify = (\<lambda>pk s m. take 4 pk = ''pub:'' \<and> s = ''sig['' @ drop 4 pk @ '']'' @ m),
       sha256 = (\<lambda>m. ''sha256('' @ m @ '')''),
       b64encode = hex_encode,
       b64decode = hex_decode \<rparr>"

definition demo_old_pair :: KeyPair where
  "demo_old_pair =
     \<lparr> private_key = ''old'', public_key = ''pub:old'',
       created_at = 1700000000000000, expires_at = 1702592000000000,
       key_id = ''https://example.org/keys/1700000000'' \<rparr>"

definition demo_new_pair :: KeyPair where
  "demo_new_pair =
     \<lparr> private_key = ''new'', public_key = ''pub:new'',
       created_at = 1702000000000000, expires_at = 1704592000000000,
       key_id = ''https://example.org/keys/1702000000'' \<rparr>"

definition demo_manager :: KeyManager where
  "demo_manager =
     \<lparr> domain = ''example.org'', keys_path = ''keys'', rotation_config = KeyRotation_default,
       active_keys = [(''https://example.org/keys/1700000000'', demo_old_pair)] \<rparr>"

definition demo_rotated :: KeyManager where
  "demo_rotated =
     demo_manager\<lparr> active_keys :=
       [(''https://example.org/keys/1700000000'', demo_old_pair),
        (''https://example.org/keys/1702000000'', demo_new_pair)] \<rparr>"

definition demo_verifier :: HTTPSignatureVerifier where
  "demo_verifier =
     \<lparr> key_manager = Some demo_rotated, private_key_path = [], public_key_path = [],
       verifier_key_id = None, verifier_private_key = None, verifier_public_key = None,
       test_now = None \<rparr>"

definition demo_strftime :: "time \<Rightarrow> string" where
  "demo_strftime t = ''Fri, 08 Dec 2023 01:46:40 GMT''"

text \<open>
  A request for the evaluations below: a \<open>Create\<close> activity posted to
  \<open>/inbox\<close> of \<open>inbox.example\<close>, signed at 2023-12-08 01:46:40 UTC with the newest key
  of \<open>demo_rotated\<close>.
\<close>

definition demo_body :: json where
  "demo_body = JObj [(''type'', JStr ''Create'')]"

definition demo_signed_headers :: headers where
  \<open>demo_signed_headers =
     [(''host'', ''inbox.example''),
      (''date'', ''Fri, 08 Dec 2023 01:46:40 GMT''),
      (''digest'', ''SHA-256=736861323536287b2274797065223a22437265617465227d29''),
      (''Signature'',
       ''keyId="https://example.org/keys/1702000000",algorithm="rsa-sha256",headers="(request-target) host date digest",signature="7369675b6e65775d28726571756573742d746172676574293a20706f7374202f696e626f780a686f73743a20696e626f782e6578616d706c650a646174653a204672692c2030382044656320323032332030313a34363a343020474d540a6469676573743a205348412d3235363d3733363836313332333533363238376232323734373937303635323233613232343337323635363137343635323237643239"'')]\<close>

text \<open>
  A request whose signature covers the request target, \<open>host\<close> and \<open>date\<close>, made with the
  same key at the same instant.
\<close>

definition demo_dated_parts :: "string list" where
  \<open>demo_dated_parts =
     [''headers="(request-target) host date"'',
      ''signature="7369675b6e65775d28726571756573742d746172676574293a20706f7374202f696e626f780a686f73743a20696e626f782e6578616d706c650a646174653a204672692c2030382044656320323032332030313a34363a343020474d54"'']\<close>

definition demo_key_part :: string where
  \<open>demo_key_part = ''keyId="https://example.org/keys/1702000000"''\<close>

definition demo_dated_request :: headers where
  \<open>demo_dated_request =
     [(''host'', ''inbox.example''),
      (''date'', ''Fri, 08 Dec 2023 01:46:40 GMT''),
      (''signature'',
       py_join '','' ([demo_key_part] @ [''algorithm="rsa-sha256"''] @ demo_dated_parts))]\<close>

definition demo_strptime :: "string \<Rightarrow> time option" where
  "demo_strptime s =
     (if s = ''Fri, 08 Dec 2023 01:46:40 GMT'' then Some 1702000000000000 else None)"


definition demo_sig_without :: string where
  "demo_sig_without = py_join '','' ([demo_key_part] @ demo_dated_parts)"

subsection \<open>Notions for stating the properties of the delivery\<close>

text \<open>Every cached entry has an expiry, as \<open>MemoryCache.set\<close> leaves it.\<close>

definition cache_wf :: "'v MemoryCache \<Rightarrow> bool" where
  "cache_wf c = (\<forall>k. data c k \<noteq> None \<longrightarrow> expires c k \<noteq> None)"

text \<open>
  A service in working order: its limiter's cache is well formed and its verifier has a key
  to sign with.
\<close>

definition ready :: "ActivityDelivery \<Rightarrow> bool" where
  "ready s = (cache_wf (cache (rate_limiter s))
              \<and> (\<exists>k. signing_key (signature_verifier s) = Inr k))"

text \<open>A response without rate limit headers and without \<open>Retry-After\<close>.\<close>

definition plain :: "response \<Rightarrow> bool" where
  "plain r = (map_of (resp_headers r) ''X-RateLimit-Remaining'' = None
              \<and> map_of (resp_headers r) ''Retry-After'' = None)"

text \<open>
  A service as the constructor makes it (three retries, twenty seconds between them) with
  the verifier of the examples, and servers that answer every POST with the same status.
\<close>

definition demo_delivery :: ActivityDelivery where
  "demo_delivery =
     \<lparr> signature_verifier = demo_verifier,
       rate_limiter = RateLimiter_init (Some \<lparr> requests = 100, period = 60, burst = Some 20 \<rparr>)
                        SLIDING_WINDOW 3600,
       timeout = 30, max_retries = 3, retry_delay = 20, max_concurrent = 10,
       clock = 1702000000000000, posts = 0 \<rparr>"

definition demo_server_env :: "int \<Rightarrow> delivery_env" where
  "demo_server_env st =
     \<lparr> env_urlparse = (\<lambda>u. (''inbox.example'', ''/inbox'')),
       env_server = (\<lambda>n. Responded \<lparr> resp_status = st, resp_headers = [],
                                      resp_text = Inr ''unavailable'' \<rparr>),
       env_strftime = demo_strftime \<rparr>"

text \<open>
  A stored job with the given number of attempts, a queue of five attempts that holds it
  and has it scheduled, and a delivery service whose attempts fail.
\<close>

definition demo_job :: "int \<Rightarrow> json" where
  "demo_job n =
     JObj [(''id'', JStr ''delivery_1''), (''activity'', demo_body),
           (''recipients'', JList [JStr ''https://inbox.example/inbox'']),
           (''status'', JStr ''pending''), (''attempts'', JInt n),
           (''next_attempt'', JStr ''2023-12-08T01:46:40''),
           (''created_at'', JStr ''2023-12-08T01:46:40''),
           (''updated_at'', JStr ''2023-12-08T01:46:40'')]"

definition demo_queue :: "int \<Rightarrow> DeliveryQueue" where
  "demo_queue n =
     \<lparr> max_attempts = 5, batch_size = 20,
       store = \<lparr> kv = [''delivery:delivery_1'' \<mapsto> demo_job n],
                 zset = [''delivery_1'' \<mapsto> 1702000000000000] \<rparr> \<rparr>"

definition failing_delivery :: "pyval \<Rightarrow> pyval \<Rightarrow> delivery_outcome" where
  "failing_delivery a r =
     Returned (DeliveryResult_init\<lparr> failed := [''https://inbox.example/inbox''],
                                    error_message := Some ''Delivery timeout'' \<rparr>)"

section \<open>Properties of the rate limiter\<close>

lemma check_stored_allow:
  assumes "stored rl d = Some st" "alive_until rl d b" "now \<le> b" "now < reset st" "0 < remaining st"
  shows "\<exists>rl'. check_rate_limit now rl d = Inr (True, rl')
           \<and> stored rl' d = Some (st\<lparr> remaining := remaining st - 1 \<rparr>)
           \<and> expires (cache rl') (state_key d) = Some (now + seconds (ttl (cache rl)))
           \<and> default_limit rl' = default_limit rl \<and> ttl (cache rl') = ttl (cache rl)"
  using assms
  by (auto simp: check_rate_limit_def get_state_def cache_get_def stored_def alive_until_def
        set_state_def cache_set_def split: option.splits)

lemma check_stored_deny:
  assumes "stored rl d = Some st" "alive_until rl d b" "now \<le> b" "now < reset st" "remaining st \<le> 0"
  shows "check_rate_limit now rl d = Inr (False, rl)"
  using assms
  by (auto simp: check_rate_limit_def get_state_def cache_get_def stored_def alive_until_def
        set_state_def cache_set_def split: option.splits)

lemma check_stored_reset:
  assumes "stored rl d = Some st" "alive_until rl d b" "now \<le> b" "reset st \<le> now"
  shows "\<exists>rl'. check_rate_limit now rl d = Inr (True, rl')
           \<and> stored rl' d = Some (fresh_state now rl)
           \<and> default_limit rl' = default_limit rl \<and> ttl (cache rl') = ttl (cache rl)"
  using assms
  by (auto simp: check_rate_limit_def get_state_def cache_get_def stored_def alive_until_def
        set_state_def cache_set_def fresh_state_def split: option.splits)

lemma check_fresh:
  assumes "stored rl d = None"
  shows "check_rate_limit now rl d =
           (let st = fresh_state now rl; rl1 = set_state now rl d st in
            if now \<ge> reset st then Inr (True, set_state now rl1 d (fresh_state now rl1))
            else if remaining st \<le> 0 then Inr (False, rl1)
            else Inr (True, set_state now rl1 d (st\<lparr> remaining := remaining st - 1 \<rparr>)))"
  using assms
  by (auto simp: check_rate_limit_def get_state_def cache_get_def stored_def Let_def
        set_state_def cache_set_def fresh_state_def split: option.splits)


lemma paced_prefix: "paced T (xs @ ys) \<Longrightarrow> paced T xs"
  by (induction T xs rule: paced.induct) simp_all

lemma paced_last: "paced T (xs @ [u]) \<Longrightarrow> xs \<noteq> [] \<Longrightarrow> u \<le> last xs + T"
  by (induction T xs rule: paced.induct) simp_all

lemma run_allowed:
  assumes "stored rl d = Some st"
    and "expires (cache rl) (state_key d) = Some (prev + seconds (ttl (cache rl)))"
    and "paced (seconds (ttl (cache rl))) (prev # ts)"
    and "\<forall>t\<in>set ts. t < reset st"
    and "int (length ts) \<le> remaining st"
  shows "\<exists>rl'. check_times ts rl d = Inr (replicate (length ts) True, rl')
           \<and> stored rl' d = Some (st\<lparr> remaining := remaining st - int (length ts) \<rparr>)
           \<and> expires (cache rl') (state_key d) = Some (last (prev # ts) + seconds (ttl (cache rl)))
           \<and> default_limit rl' = default_limit rl \<and> ttl (cache rl') = ttl (cache rl)"
  using assms
proof (induction ts arbitrary: rl st prev)
  case Nil
  then show ?case by simp
next
  case (Cons t ts)
  from Cons.prems have t: "t \<le> prev + seconds (ttl (cache rl))" "t < reset st"
    and pc: "paced (seconds (ttl (cache rl))) (t # ts)"
    and pos: "0 < remaining st" by auto
  have alive: "alive_until rl d (prev + seconds (ttl (cache rl)))"
    using Cons.prems(2) by (simp add: alive_until_def)
  from check_stored_allow [OF Cons.prems(1) alive t(1) t(2) pos]
  obtain rl1 where rl1: "check_rate_limit t rl d = Inr (True, rl1)"
    "stored rl1 d = Some (st\<lparr> remaining := remaining st - 1 \<rparr>)"
    "expires (cache rl1) (state_key d) = Some (t + seconds (ttl (cache rl)))"
    "default_limit rl1 = default_limit rl" "ttl (cache rl1) = ttl (cache rl)"
    by blast
  have e1: "expires (cache rl1) (state_key d) = Some (t + seconds (ttl (cache rl1)))"
    using rl1(3) rl1(5) by simp
  have pc1: "paced (seconds (ttl (cache rl1))) (t # ts)"
    using pc rl1(5) by simp
  have rest: "\<forall>u\<in>set ts. u < reset (st\<lparr> remaining := remaining st - 1 \<rparr>)"
    using Cons.prems(4) by simp
  have len: "int (length ts) \<le> remaining (st\<lparr> remaining := remaining st - 1 \<rparr>)"
    using Cons.prems(5) by simp
  from Cons.IH [OF rl1(2) e1 pc1 rest len]
  obtain rl2 where rl2: "check_times ts rl1 d = Inr (replicate (length ts) True, rl2)"
    "stored rl2 d = Some (st\<lparr> remaining := remaining st - 1 - int (length ts) \<rparr>)"
    "expires (cache rl2) (state_key d) = Some (last (t # ts) + seconds (ttl (cache rl1)))"
    "default_limit rl2 = default_limit rl1"
    "ttl (cache rl2) = ttl (cache rl1)"
    by auto
  show ?case
    using rl1 rl2 by (simp add: algebra_simps)
qed

text \<open>
  Claim C6, with what the cache's time to live requires. A limiter with limit \<open>N\<close> and
  period \<open>P\<close> seconds and a domain it has no state for. The first \<open>N + 1\<close> calls of
  \<open>check_rate_limit\<close> are made before \<open>P\<close> seconds have passed since the first of them,
  and every call is made while the state of the domain is in the cache: each of the
  \<open>N + 1\<close> calls no later than \<open>ttl\<close> seconds after the call before it, and the call
  after the window no later than \<open>ttl\<close> seconds after the last allowed call (a refused
  call does not write the state; with \<open>N = 0\<close> the first call writes it). Then the first
  \<open>N\<close> calls return true, the next one returns false, and the call once \<open>P\<close> seconds
  have passed since the first call returns true and leaves the counter at \<open>N\<close>.
\<close>

theorem rate_limit_window:
  assumes fresh: "data (cache rl) (state_key d) = None"
    and cfg: "requests (default_limit rl) = int N" "period (default_limit rl) = P"
    and len: "length ts = N"
    and first: "t0 = hd (ts @ [u])"
    and times: "\<forall>t\<in>set (ts @ [u]). t < t0 + seconds P"
    and pace: "paced (seconds (ttl (cache rl))) (ts @ [u])"
    and after: "t0 + seconds P \<le> w" "w \<le> last (t0 # ts) + seconds (ttl (cache rl))"
  shows "\<exists>rl1 rl2 rl3.
           check_times ts rl d = Inr (replicate N True, rl1)
         \<and> check_rate_limit u rl1 d = Inr (False, rl2)
         \<and> check_rate_limit w rl2 d = Inr (True, rl3)
         \<and> map_option remaining (data (cache rl3) (state_key d)) = Some (int N)"
proof -
  define T where "T = seconds (ttl (cache rl))"
  define b where "b = last (t0 # ts) + T"
  define st where "st = fresh_state t0 rl"
  have sto: "stored rl d = None" using fresh by (simp add: stored_def)
  have st_simps: "remaining st = int N" "reset st = t0 + seconds P"
    using cfg by (simp_all add: st_def fresh_state_def)
  have t0_in: "t0 \<in> set (ts @ [u])" using first by (cases ts) auto
  have sp: "0 < seconds P" using times t0_in by fastforce
  \<comment> \<open>the state after the \<open>N\<close> allowed calls\<close>
  have "\<exists>rl1. check_times ts rl d = Inr (replicate N True, rl1)
           \<and> (if N = 0 then rl1 = rl
               else stored rl1 d = Some (st\<lparr> remaining := 0 \<rparr>) \<and> alive_until rl1 d b
                  \<and> default_limit rl1 = default_limit rl \<and> ttl (cache rl1) = ttl (cache rl))"
  proof (cases ts)
    case Nil
    then show ?thesis using len by simp
  next
    case (Cons t ts')
    then have tt: "t = t0" using first by simp
    define rla where "rla = set_state t0 (set_state t0 rl d st) d (st\<lparr> remaining := remaining st - 1 \<rparr>)"
    have c1: "check_rate_limit t0 rl d = Inr (True, rla)"
      using check_fresh [OF sto, of t0] cfg st_simps Cons len sp
      by (simp add: Let_def st_def [symmetric] rla_def)
    have a1: "stored rla d = Some (st\<lparr> remaining := remaining st - 1 \<rparr>)"
      "expires (cache rla) (state_key d) = Some (t0 + seconds (ttl (cache rla)))"
      "default_limit rla = default_limit rl"
      "ttl (cache rla) = ttl (cache rl)"
      by (simp_all add: rla_def set_state_def cache_set_def stored_def)
    have pc: "paced (seconds (ttl (cache rla))) (t0 # ts')"
      using paced_prefix [OF pace] Cons tt a1(4) by simp
    have rest: "\<forall>x\<in>set ts'. x < reset (st\<lparr> remaining := remaining st - 1 \<rparr>)"
      using times Cons st_simps by auto
    have l: "int (length ts') \<le> remaining (st\<lparr> remaining := remaining st - 1 \<rparr>)"
      using len Cons st_simps by auto
    from run_allowed [OF a1(1) a1(2) pc rest l]
    obtain rl1 where rl1: "check_times ts' rla d = Inr (replicate (length ts') True, rl1)"
      "stored rl1 d = Some (st\<lparr> remaining := remaining st - 1 - int (length ts') \<rparr>)"
      "expires (cache rl1) (state_key d) = Some (last (t0 # ts') + seconds (ttl (cache rla)))"
      "default_limit rl1 = default_limit rla"
      "ttl (cache rl1) = ttl (cache rla)"
      by auto
    have alive: "alive_until rl1 d b"
      using rl1(3) a1(4) Cons tt by (simp add: alive_until_def b_def T_def)
    have "remaining st - 1 - int (length ts') = 0"
      using len Cons st_simps by auto
    moreover have "N \<noteq> 0" using len Cons by auto
    moreover have "replicate N True = True # replicate (length ts') True"
      using len Cons by auto
    ultimately show ?thesis
      using c1 rl1 a1 alive Cons tt by simp
  qed
  then obtain rl1 where rl1: "check_times ts rl d = Inr (replicate N True, rl1)"
    and rl1_inv: "if N = 0 then rl1 = rl
               else stored rl1 d = Some (st\<lparr> remaining := 0 \<rparr>) \<and> alive_until rl1 d b
                  \<and> default_limit rl1 = default_limit rl \<and> ttl (cache rl1) = ttl (cache rl)"
    by blast
  have u: "u < t0 + seconds P"
    using times by auto
  \<comment> \<open>the denied call\<close>
  have "\<exists>rl2. check_rate_limit u rl1 d = Inr (False, rl2)
          \<and> stored rl2 d = Some (st\<lparr> remaining := 0 \<rparr>) \<and> alive_until rl2 d b
          \<and> default_limit rl2 = default_limit rl"
  proof (cases "N = 0")
    case True
    then have "ts = []" using len by simp
    then have "u = t0" using first by simp
    then show ?thesis
      using check_fresh [OF sto, of t0] True rl1_inv cfg st_simps sp \<open>ts = []\<close>
      by (simp add: Let_def st_def [symmetric] set_state_def cache_set_def stored_def
            alive_until_def b_def T_def)
  next
    case False
    with rl1_inv have inv: "stored rl1 d = Some (st\<lparr> remaining := 0 \<rparr>)" "alive_until rl1 d b"
      "default_limit rl1 = default_limit rl" by auto
    from False have ne: "ts \<noteq> []" using len by auto
    have ub: "u \<le> b"
      using paced_last [OF pace ne] ne by (simp add: b_def T_def)
    have "check_rate_limit u rl1 d = Inr (False, rl1)"
      by (rule check_stored_deny [OF inv(1) inv(2) ub]) (use u st_simps in auto)
    then show ?thesis using inv by blast
  qed
  then obtain rl2 where rl2: "check_rate_limit u rl1 d = Inr (False, rl2)"
    "stored rl2 d = Some (st\<lparr> remaining := 0 \<rparr>)" "alive_until rl2 d b"
    "default_limit rl2 = default_limit rl"
    by blast
  \<comment> \<open>the call after the window\<close>
  have w: "w \<le> b" "reset (st\<lparr> remaining := 0 \<rparr>) \<le> w"
    using after st_simps by (auto simp: b_def T_def)
  from check_stored_reset [OF rl2(2) rl2(3) w]
  obtain rl3 where rl3: "check_rate_limit w rl2 d = Inr (True, rl3)"
    "stored rl3 d = Some (fresh_state w rl2)"
    by blast
  have "map_option remaining (data (cache rl3) (state_key d)) = Some (int N)"
    using rl3(2) rl2(4) cfg by (simp add: stored_def fresh_state_def)
  with rl1 rl2(1) rl3(1) show ?thesis by blast
qed

theorem rate_limit_window_witness:
  "\<exists>rl1 rl2 rl3.
     check_times [0, 1000000] limiter2 ''remote.example'' = Inr ([True, True], rl1)
   \<and> check_rate_limit 2000000 rl1 ''remote.example'' = Inr (False, rl2)
   \<and> check_rate_limit 60000000 rl2 ''remote.example'' = Inr (True, rl3)
   \<and> map_option remaining (data (cache rl3) (state_key ''remote.example'')) = Some 2"
  using rate_limit_window [of limiter2 "''remote.example''" 2 60 "[0, 1000000]" 0 2000000 60000000]
  by (simp add: limiter2_def RateLimiter_init_def MemoryCache_init_def seconds_def numeral_2_eq_2)

text \<open>
  Claim C6 as it is stated, for every sequence of calls, fails once the cached state has
  expired. The state of a domain lives in a cache whose entries expire \<open>ttl\<close> seconds
  after they were last written, and a call that finds no entry starts a new window and is
  counted in it. With two requests per minute and a time to live of an hour, the calls at
  0 s, 1 s and 2 s answer true, true and false, and the call at 3700 s answers true and
  leaves the counter at 1, not at 2. With one request per minute and a time to live of ten
  seconds, the second call, made 11 s after the first and inside the window, is allowed.
\<close>

theorem rate_limit_window_expired_entry:
  "check_outcomes [0, 1000000, 2000000, 3700000000] limiter2 ''remote.example''
     = Inr ([True, True, False, True], Some 1)
   \<and> check_outcomes [0, 11000000] limiter_short ''remote.example''
     = Inr ([True, True], Some 0)"
  by (simp add: check_outcomes_def check_rate_limit_def get_state_def cache_get_def
        set_state_def cache_set_def fresh_state_def stored_def limiter2_def limiter_short_def
        RateLimiter_init_def MemoryCache_init_def seconds_def state_key_def Let_def)

lemma get_state_nonneg:
  assumes "get_state now rl d = Inr (st, rl1)" "nonneg_remaining rl"
    "0 \<le> requests (default_limit rl)"
  shows "0 \<le> remaining st \<and> nonneg_remaining rl1 \<and> default_limit rl1 = default_limit rl"
  using assms
  by (auto simp: get_state_def cache_get_def nonneg_remaining_def set_state_def cache_set_def
        fresh_state_def Let_def split: option.splits if_splits)

lemma set_state_nonneg:
  assumes "nonneg_remaining rl" "0 \<le> remaining st"
  shows "nonneg_remaining (set_state now rl d st)"
  using assms by (auto simp: nonneg_remaining_def set_state_def cache_set_def)

lemma set_state_default_limit: "default_limit (set_state now rl d st) = default_limit rl"
  by (simp add: set_state_def)

lemma check_rate_limit_nonneg:
  assumes "check_rate_limit now rl d = Inr (b, rl')" "nonneg_remaining rl"
    "0 \<le> requests (default_limit rl)"
  shows "nonneg_remaining rl' \<and> default_limit rl' = default_limit rl"
proof -
  from assms(1) obtain st rl1 where g: "get_state now rl d = Inr (st, rl1)"
    by (auto simp: check_rate_limit_def split: sum.splits)
  from get_state_nonneg [OF g assms(2) assms(3)]
  have st: "0 \<le> remaining st" and inv: "nonneg_remaining rl1"
    and dl: "default_limit rl1 = default_limit rl" by auto
  have fr: "0 \<le> remaining (fresh_state now rl1)"
    using assms(3) dl by (simp add: fresh_state_def)
  show ?thesis
    using assms(1) g inv dl fr st
    by (auto simp: check_rate_limit_def set_state_default_limit
          intro!: set_state_nonneg split: if_splits)
qed

lemma get_wait_time_nonneg:
  assumes "get_wait_time now rl d = Inr (w, rl')" "nonneg_remaining rl"
    "0 \<le> requests (default_limit rl)"
  shows "nonneg_remaining rl' \<and> default_limit rl' = default_limit rl"
proof -
  from assms(1) obtain st rl1 where g: "get_state now rl d = Inr (st, rl1)"
    by (auto simp: get_wait_time_def split: sum.splits)
  from get_state_nonneg [OF g assms(2) assms(3)] assms(1) g
  show ?thesis by (auto simp: get_wait_time_def split: if_splits)
qed

lemma update_rate_limit_nonneg:
  assumes "update_rate_limit now rl d hs = Inr rl'" "nonneg_remaining rl"
    "remote_remaining_ok (Update d hs)"
  shows "nonneg_remaining rl' \<and> default_limit rl' = default_limit rl"
  using assms
  by (auto simp: update_rate_limit_def set_state_default_limit
        intro!: set_state_nonneg split: option.splits sum.splits)

lemma run_op_nonneg:
  assumes "nonneg_remaining rl" "0 \<le> requests (default_limit rl)" "remote_remaining_ok x"
  shows "nonneg_remaining (run_op now rl x) \<and> default_limit (run_op now rl x) = default_limit rl"
proof (cases x)
  case (Check d)
  show ?thesis
  proof (cases "check_rate_limit now rl d")
    case (Inl e)
    then show ?thesis using Check assms by simp
  next
    case (Inr p)
    obtain b rl' where p: "p = (b, rl')" by (cases p)
    from check_rate_limit_nonneg [OF Inr [unfolded p] assms(1) assms(2)]
    show ?thesis using Check Inr p by simp
  qed
next
  case (Wait d)
  show ?thesis
  proof (cases "get_wait_time now rl d")
    case (Inl e)
    then show ?thesis using Wait assms by simp
  next
    case (Inr p)
    obtain w rl' where p: "p = (w, rl')" by (cases p)
    from get_wait_time_nonneg [OF Inr [unfolded p] assms(1) assms(2)]
    show ?thesis using Wait Inr p by simp
  qed
next
  case (Update d hs)
  show ?thesis
  proof (cases "update_rate_limit now rl d hs")
    case (Inl e)
    then show ?thesis using Update assms by simp
  next
    case (Inr rl')
    from update_rate_limit_nonneg [OF Inr assms(1) assms(3) [unfolded Update]]
    show ?thesis using Update Inr by simp
  qed
qed

text \<open>
  Claim C7, amended. With a configured limit that is not negative, every sequence of
  \<open>check_rate_limit\<close>, \<open>get_wait_time\<close> and \<open>update_rate_limit\<close> calls in which no
  remote header \<open>X-RateLimit-Remaining\<close> parses to a negative integer keeps every stored
  \<open>remaining\<close> at or above zero.
\<close>

theorem remaining_nonneg_invariant:
  assumes "nonneg_remaining rl" "0 \<le> requests (default_limit rl)"
    and "\<forall>x\<in>set ops. remote_remaining_ok (snd x)"
  shows "nonneg_remaining (run_ops ops rl)"
  using assms
proof (induction ops arbitrary: rl)
  case Nil
  then show ?case by simp
next
  case (Cons a ops)
  obtain now x where a: "a = (now, x)" by (cases a)
  from Cons.prems a have ok: "remote_remaining_ok x" by simp
  from run_op_nonneg [OF Cons.prems(1) Cons.prems(2) ok, of now]
  have "nonneg_remaining (run_op now rl x)" "0 \<le> requests (default_limit (run_op now rl x))"
    using Cons.prems(2) by auto
  then show ?case
    using Cons.IH [of "run_op now rl x"] Cons.prems(3) a by simp
qed


lemma py_int_minus_one: "py_int ''-1'' = Inr (- 1)"
  by (simp add: py_int_def py_strip_def py_strip_chars_def is_space_def is_digit_def digit_val_def)

lemma py_int_100: "py_int ''100'' = Inr 100"
  by (simp add: py_int_def py_strip_def py_strip_chars_def is_space_def is_digit_def digit_val_def)

lemma py_int_ts: "py_int ''1700000000'' = Inr 1700000000"
  by (simp add: py_int_def py_strip_def py_strip_chars_def is_space_def is_digit_def digit_val_def)

text \<open>
  Claim C7, as stated, fails: \<open>update_rate_limit\<close> stores the remote's
  \<open>X-RateLimit-Remaining\<close> as it is, so a remote that sends \<open>-1\<close> leaves a negative
  \<open>remaining\<close> in the store.
\<close>

theorem remaining_negative_after_update:
  "map_option remaining
     (data (cache (run_ops [(0, Update ''remote.example'' negative_headers)]
                     (RateLimiter_init None SLIDING_WINDOW 3600)))
        (state_key ''remote.example'')) = Some (- 1)"
  by (simp add: negative_headers_def update_rate_limit_def py_int_minus_one py_int_100 py_int_ts
       fromtimestamp_def set_state_def cache_set_def)

theorem remaining_nonneg_invariant_witness:
  "nonneg_remaining
     (run_ops [(0, Check ''remote.example''), (1000000, Wait ''remote.example''),
               (2000000, Update ''remote.example''
                  [(''X-RateLimit-Remaining'', ''100''), (''X-RateLimit-Reset'', ''1700000000''),
                   (''X-RateLimit-Limit'', ''100'')])]
        (RateLimiter_init None SLIDING_WINDOW 3600))"
  using remaining_nonneg_invariant [of "RateLimiter_init None SLIDING_WINDOW 3600"
     "[(0, Check ''remote.example''), (1000000, Wait ''remote.example''),
               (2000000, Update ''remote.example''
                  [(''X-RateLimit-Remaining'', ''100''), (''X-RateLimit-Reset'', ''1700000000''),
                   (''X-RateLimit-Limit'', ''100'')])]"]
  by (simp add: RateLimiter_init_def MemoryCache_init_def nonneg_remaining_def py_int_100)

section \<open>Properties of the key manager\<close>

lemma py_max_by_foldl_mem:
  "foldl (\<lambda>m y. if f y > f m then y else m) x xs \<in> set (x # xs)"
  by (induction xs arbitrary: x) auto

lemma py_max_by_foldl_ge:
  "(f :: 'a \<Rightarrow> int) x \<le> f (foldl (\<lambda>m y. if f y > f m then y else m) x xs)"
proof (induction xs arbitrary: x)
  case Nil
  then show ?case by simp
next
  case (Cons a xs)
  show ?case
  proof (cases "f a > f x")
    case True
    then show ?thesis using Cons.IH [of a] by simp
  next
    case False
    then show ?thesis using Cons.IH [of x] by simp
  qed
qed

lemma py_max_by_foldl_greatest:
  "y \<in> set xs \<Longrightarrow> (f :: 'a \<Rightarrow> int) y \<le> f (foldl (\<lambda>m y. if f y > f m then y else m) x xs)"
proof (induction xs arbitrary: x)
  case Nil
  then show ?case by simp
next
  case (Cons a xs)
  show ?case
  proof (cases "y = a")
    case True
    have "f a \<le> f (if f a > f x then a else x)" by simp
    also have "\<dots> \<le> f (foldl (\<lambda>m y. if f y > f m then y else m) (if f a > f x then a else x) xs)"
      by (rule py_max_by_foldl_ge)
    finally show ?thesis using True by simp
  next
    case False
    with Cons.prems have "y \<in> set xs" by simp
    from Cons.IH [OF this] show ?thesis by simp
  qed
qed

lemma py_max_by_mem: "py_max_by f x xs \<in> set (x # xs)"
  unfolding py_max_by_def by (rule py_max_by_foldl_mem)

lemma py_max_by_greatest: "y \<in> set (x # xs) \<Longrightarrow> f y \<le> f (py_max_by f x xs)"
  unfolding py_max_by_def
  using py_max_by_foldl_ge [of f x xs] py_max_by_foldl_greatest [of y xs f x] by auto

lemma py_max_by_unique:
  assumes "p \<in> set (x # xs)" "\<forall>y\<in>set (x # xs). y \<noteq> p \<longrightarrow> f y < f p"
  shows "py_max_by f x xs = p"
proof (rule ccontr)
  assume neq: "py_max_by f x xs \<noteq> p"
  have "py_max_by f x xs \<in> set (x # xs)" by (rule py_max_by_mem)
  with assms(2) neq have "f (py_max_by f x xs) < f p" by blast
  moreover have "f p \<le> f (py_max_by f x xs)" by (rule py_max_by_greatest [OF assms(1)])
  ultimately show False by simp
qed

lemma archive_expired_set:
  "archive_expired archived kids ks = (ks', Inr ()) \<Longrightarrow>
     set ks' = {kv \<in> set ks. fst kv \<notin> set kids}"
proof (induction kids arbitrary: ks)
  case Nil
  then show ?case by simp
next
  case (Cons kid kids)
  from Cons.prems obtain pair where "map_of ks kid = Some pair" "archived pair = Inr ()"
    and rest: "archive_expired archived kids (AList.delete kid ks) = (ks', Inr ())"
    by (auto split: option.splits sum.splits)
  from Cons.IH [OF rest] show ?case
    by (auto simp: AList.delete_eq)
qed

lemma generate_key_pair_ok:
  assumes "generate_key_pair cr t (Inr priv) saved km = (km1, Inr p)"
  shows "created_at p = t" "private_key p = priv"
    "expires_at p = t + days (rotation_interval (rotation_config km))"
    "key_id p = ''https://'' @ domain km @ ''/keys/'' @ py_str_int (timestamp_seconds t)"
    "active_keys km1 = AList.update (key_id p) p (active_keys km)"
    "rotation_config km1 = rotation_config km"
  using assms
  by (auto simp: generate_key_pair_def Let_def split: sum.splits)

lemma update_set_subset: "set (AList.update k v al) \<subseteq> insert (k, v) (set al)"
  by (induction al) auto

lemma update_mem: "(k, v) \<in> set (AList.update k v al)"
  by (induction al) auto

text \<open>
  Claim C8. \<open>get_active_key\<close> raises \<open>KeyManagementError\<close> exactly when the active set is
  empty; otherwise it returns a key of the set that no key of the set is newer than. When
  \<open>rotate_keys\<close> completes, the keys already in the set were created before the new one
  and the new one is not already past its expiry plus the overlap, \<open>get_active_key\<close>
  returns the pair that this rotation generated.
\<close>

theorem get_active_key_newest:
  "(active_keys km = [] \<longrightarrow> get_active_key km = Inl (KeyManagementError ''No active keys available''))
   \<and> (active_keys km \<noteq> [] \<longrightarrow>
        (\<exists>k. get_active_key km = Inr k \<and> k \<in> snd ` set (active_keys km)
           \<and> (\<forall>k'\<in>snd ` set (active_keys km). created_at k' \<le> created_at k)))
   \<and> (generate_key_pair cr t_gen (Inr priv) saved km = (km1, Inr new_pair)
        \<and> rotate_keys cr t_gen now (Inr priv) saved archived km = (km', Inr ())
        \<and> distinct (map fst (active_keys km))
        \<and> (\<forall>k\<in>snd ` set (active_keys km). created_at k < t_gen)
        \<and> now - days (key_overlap (rotation_config km))
             \<le> t_gen + days (rotation_interval (rotation_config km))
        \<longrightarrow> get_active_key km' = Inr new_pair)"
proof (intro conjI impI)
  assume "active_keys km = []"
  then show "get_active_key km = Inl (KeyManagementError ''No active keys available'')"
    by (simp add: get_active_key_def)
next
  assume ne: "active_keys km \<noteq> []"
  then obtain k ks where vs: "map snd (active_keys km) = k # ks"
    by (cases "active_keys km") auto
  then have g: "get_active_key km = Inr (py_max_by created_at k ks)"
    by (simp add: get_active_key_def)
  have s: "set (k # ks) = snd ` set (active_keys km)"
    using vs by (metis set_map)
  have "py_max_by created_at k ks \<in> snd ` set (active_keys km)"
    using py_max_by_mem [of created_at k ks] unfolding s .
  moreover have "\<forall>k'\<in>snd ` set (active_keys km). created_at k' \<le> created_at (py_max_by created_at k ks)"
    using py_max_by_greatest [of _ k ks created_at] s by blast
  ultimately show "\<exists>k. get_active_key km = Inr k \<and> k \<in> snd ` set (active_keys km)
           \<and> (\<forall>k'\<in>snd ` set (active_keys km). created_at k' \<le> created_at k)"
    using g by blast
next
  assume a: "generate_key_pair cr t_gen (Inr priv) saved km = (km1, Inr new_pair)
        \<and> rotate_keys cr t_gen now (Inr priv) saved archived km = (km', Inr ())
        \<and> distinct (map fst (active_keys km))
        \<and> (\<forall>k\<in>snd ` set (active_keys km). created_at k < t_gen)
        \<and> now - days (key_overlap (rotation_config km))
             \<le> t_gen + days (rotation_interval (rotation_config km))"
  then have gen: "generate_key_pair cr t_gen (Inr priv) saved km = (km1, Inr new_pair)"
    and rot: "rotate_keys cr t_gen now (Inr priv) saved archived km = (km', Inr ())"
    and dist: "distinct (map fst (active_keys km))"
    and older: "\<forall>k\<in>snd ` set (active_keys km). created_at k < t_gen"
    and live: "now - days (key_overlap (rotation_config km))
             \<le> t_gen + days (rotation_interval (rotation_config km))"
    by auto
  note p = generate_key_pair_ok [OF gen]
  define expired where "expired = map fst (filter (\<lambda>(kid, pair).
                             expires_at pair < now - days (key_overlap (rotation_config km1)))
                           (active_keys km1))"
  from rot gen have arch: "archive_expired archived expired (active_keys km1) = (active_keys km', Inr ())"
    by (auto simp: rotate_keys_def Let_def expired_def split: prod.splits sum.splits)
  have set': "set (active_keys km') = {kv \<in> set (active_keys km1). fst kv \<notin> set expired}"
    by (rule archive_expired_set [OF arch])
  have new_in1: "(key_id new_pair, new_pair) \<in> set (active_keys km1)"
    using p(5) update_mem by metis
  have sub1: "set (active_keys km1) \<subseteq> insert (key_id new_pair, new_pair) (set (active_keys km))"
    using p(5) update_set_subset by metis
  have not_expired: "\<not> expires_at new_pair < now - days (key_overlap (rotation_config km1))"
    using live p(3) p(6) by simp
  have dist1: "distinct (map fst (active_keys km1))"
    using dist p(5) by (simp add: AList.distinct_update)
  have "key_id new_pair \<notin> set expired"
  proof
    assume "key_id new_pair \<in> set expired"
    then obtain q where q: "(key_id new_pair, q) \<in> set (active_keys km1)"
      "expires_at q < now - days (key_overlap (rotation_config km1))"
      by (auto simp: expired_def)
    from dist1 q(1) new_in1 have "q = new_pair"
      by (meson eq_key_imp_eq_value)
    with q(2) not_expired show False by simp
  qed
  with new_in1 set' have new_in': "(key_id new_pair, new_pair) \<in> set (active_keys km')"
    by simp
  then obtain k ks where vs: "map snd (active_keys km') = k # ks"
    by (cases "active_keys km'") auto
  have s: "set (k # ks) = snd ` set (active_keys km')"
    using vs by (metis set_map)
  have mem: "new_pair \<in> set (k # ks)"
    unfolding s using new_in' by force
  have others: "\<forall>y\<in>set (k # ks). y \<noteq> new_pair \<longrightarrow> created_at y < created_at new_pair"
  proof (intro ballI impI)
    fix y assume y: "y \<in> set (k # ks)" "y \<noteq> new_pair"
    then obtain i where "(i, y) \<in> set (active_keys km')"
      unfolding s by auto
    with set' have "(i, y) \<in> set (active_keys km1)" by simp
    with sub1 y(2) have "(i, y) \<in> set (active_keys km)" by auto
    then have "y \<in> snd ` set (active_keys km)" by force
    with older have "created_at y < t_gen" by blast
    then show "created_at y < created_at new_pair"
      using p(1) by simp
  qed
  have "py_max_by created_at k ks = new_pair"
    by (rule py_max_by_unique [OF mem others])
  then show "get_active_key km' = Inr new_pair"
    using vs by (simp add: get_active_key_def)
qed


lemma demo_generate:
  "generate_key_pair standin_crypto 1702000000000000 (Inr ''new'') (Inr ()) demo_manager
     = (demo_rotated, Inr demo_new_pair)"
  by (simp add: generate_key_pair_def demo_manager_def demo_rotated_def demo_new_pair_def
        demo_old_pair_def standin_crypto_def KeyRotation_default_def days_def
        timestamp_seconds_def py_str_int_def nat_digits.simps digit_char_def Let_def)

lemma demo_rotate:
  "rotate_keys standin_crypto 1702000000000000 1702000000000001 (Inr ''new'') (Inr ())
      (\<lambda>p. Inr ()) demo_manager = (demo_rotated, Inr ())"
  by (simp add: rotate_keys_def demo_generate Let_def)
     (simp add: demo_manager_def demo_rotated_def demo_new_pair_def
        demo_old_pair_def KeyRotation_default_def days_def)

theorem get_active_key_newest_witness:
  "get_active_key demo_rotated = Inr demo_new_pair"
  using get_active_key_newest [of demo_manager standin_crypto 1702000000000000 "''new''"
          "Inr ()" demo_rotated demo_new_pair 1702000000000001 "\<lambda>p. Inr ()" demo_rotated]
  by (simp add: demo_generate demo_rotate)
     (simp add: demo_manager_def demo_old_pair_def KeyRotation_default_def days_def)

section \<open>Properties of signing and verification\<close>

lemma map_of_fold_lower_None:
  "map_of (fold (\<lambda>(k, v) d. AList.update (py_lower k) v d) hs d0) x = None
     \<longleftrightarrow> map_of d0 x = None \<and> (\<forall>k\<in>fst ` set hs. py_lower k \<noteq> x)"
proof (induction hs arbitrary: d0)
  case Nil
  then show ?case by simp
next
  case (Cons a hs)
  obtain k v where a: "a = (k, v)" by (cases a)
  show ?case
    using Cons.IH [of "AList.update (py_lower k) v d0"] a
    by (auto simp: AList.update_conv')
qed

lemma lower_keys_None:
  "map_of (lower_keys hs) x = None \<longleftrightarrow> (\<forall>k\<in>fst ` set hs. py_lower k \<noteq> x)"
  by (simp add: lower_keys_def map_of_fold_lower_None)

lemma signing_lines_no_digest:
  assumes "map_of hl ''digest'' = None"
  shows "\<exists>m. signing_lines method path hl headers_to_sign = Inl (SignatureError m)"
  using assms
  by (simp add: headers_to_sign_def py_lower_def split: option.splits sum.splits)

lemma build_signing_string_no_digest:
  assumes "\<forall>k\<in>fst ` set hs. py_lower k \<noteq> ''digest''"
  shows "\<exists>m. build_signing_string method path hs headers_to_sign = Inl (SignatureError m)"
proof -
  from assms have "map_of (lower_keys hs) ''digest'' = None"
    by (simp add: lower_keys_None)
  from signing_lines_no_digest [OF this, of "method" "path"]
  show ?thesis by (auto simp: build_signing_string_def)
qed

text \<open>
  Claim C9. With no body and no header whose lower-cased name is \<open>digest\<close>,
  \<open>sign_request\<close> raises \<open>SignatureError\<close>: the headers to sign always include \<open>digest\<close>
  and \<open>_build_signing_string\<close> raises on a header to sign that the request lacks.
\<close>

theorem sign_request_bodyless_fails:
  assumes "\<forall>k\<in>fst ` set hs. py_lower k \<noteq> ''digest''"
  shows "\<exists>m. sign_request cr strftime now v method path hs None = Inl (SignatureError m)"
proof -
  define rh where "rh = (if has_key hs ''date'' then hs
             else AList.update ''date''
                    (strftime (case test_now v of Some t \<Rightarrow> t | None \<Rightarrow> now)) hs)"
  have sub: "fst ` set rh \<subseteq> insert ''date'' (fst ` set hs)"
    by (auto simp: rh_def AList.dom_update)
  have d: "py_lower ''date'' \<noteq> ''digest''" by (simp add: py_lower_def)
  have "\<forall>k\<in>fst ` set rh. py_lower k \<noteq> ''digest''"
  proof
    fix k assume "k \<in> fst ` set rh"
    with sub have "k = ''date'' \<or> k \<in> fst ` set hs" by blast
    then show "py_lower k \<noteq> ''digest''"
      using d assms by blast
  qed
  from build_signing_string_no_digest [OF this, of "method" "path"]
  obtain m where m: "build_signing_string method path rh headers_to_sign = Inl (SignatureError m)"
    by blast
  have "sign_request cr strftime now v method path hs None =
          (case build_signing_string method path rh headers_to_sign of
             Inl e \<Rightarrow> Inl (SignatureError (''Request signing failed: '' @ str_error e))
           | Inr signing_string \<Rightarrow>
             (case signing_key v of
                Inl e \<Rightarrow> Inl (SignatureError (''Request signing failed: '' @ str_error e))
              | Inr (pk, kid) \<Rightarrow>
                  (let signature = rsa_sign cr pk (utf8_encode signing_string);
                       signature_header =
                         signature_header_value kid headers_to_sign (b64encode cr signature)
                   in Inr (AList.update ''Signature'' signature_header rh))))"
    unfolding sign_request_def rh_def by (simp add: Let_def)
  then show ?thesis
    using m by simp
qed

theorem sign_request_bodyless_fails_witness:
  "\<exists>m. sign_request standin_crypto demo_strftime 1702000000000000 demo_verifier ''GET''
          ''/users/alice'' [(''Host'', ''remote.example''), (''Accept'', ''application/activity+json'')]
          None = Inl (SignatureError m)"
  using sign_request_bodyless_fails [of "[(''Host'', ''remote.example''), (''Accept'', ''application/activity+json'')]"]
  by (simp add: py_lower_def)

lemma demo_signing_key:
  "signing_key demo_verifier = Inr (''new'', ''https://example.org/keys/1702000000'')"
  by (simp add: signing_key_def demo_verifier_def demo_rotated_def demo_manager_def
        get_active_private_key_def get_active_key_def py_max_by_def demo_old_pair_def
        demo_new_pair_def)

lemma demo_sign:
  "sign_request standin_crypto demo_strftime 1702000000000000 demo_verifier ''POST'' ''/inbox''
     [(''host'', ''inbox.example'')] (Some demo_body) = Inr demo_signed_headers"
  by (simp add: sign_request_def demo_signing_key has_key_def Let_def demo_strftime_def
        generate_digest_def demo_body_def to_json_string_def json_string_def
        json_escape_char_def sort_by_key_def utf8_encode_def standin_crypto_def
        hex_encode_def hex_digit_def digit_char_def build_signing_string_def lower_keys_def
        py_lower_def headers_to_sign_def request_target_line_def signature_header_value_def
        demo_signed_headers_def)

lemma py_split_where_nonempty: "py_split_where p s \<noteq> []"
  by (induction s) (auto split: list.splits)

lemma py_split_where_append:
  "p c \<Longrightarrow> py_split_where p (a @ c # b) = py_split_where p a @ py_split_where p b"
proof (induction a)
  case Nil
  then show ?case by simp
next
  case (Cons x a)
  obtain w ws where w: "py_split_where p a = w # ws"
    using py_split_where_nonempty [of p a] by (cases "py_split_where p a") auto
  show ?case using Cons w by simp
qed

lemma py_split_where_none:
  "\<forall>c\<in>set s. \<not> p c \<Longrightarrow> py_split_where p s = [s]"
  by (induction s) auto

lemma py_split_append:
  "py_split c (a @ c # b) = py_split c a @ py_split c b"
  by (simp add: py_split_def py_split_where_append)

lemma py_split_none: "c \<notin> set s \<Longrightarrow> py_split c s = [s]"
  unfolding py_split_def by (rule py_split_where_none) auto

lemma parse_part_empty: "parse_part [] d = d"
  by (simp add: parse_part_def)

lemma fold_parse_split_join:
  "fold parse_part (py_split CHR '','' (py_join '','' xs)) d
     = fold parse_part (concat (map (py_split CHR '','') xs)) d"
proof (induction "'',''" xs arbitrary: d rule: py_join.induct)
  case 1
  then show ?case by (simp add: py_split_def parse_part_empty)
next
  case (2 x)
  then show ?case by simp
next
  case (3 x y ys)
  have "py_split CHR '','' (py_join '','' (x # y # ys))
          = py_split CHR '','' x @ py_split CHR '','' (py_join '','' (y # ys))"
    using py_split_append [of "CHR '',''" x "py_join '','' (y # ys)"] by simp
  then show ?case using 3 by simp
qed

lemma map_of_parse_part:
  "map_of (parse_part part d) k =
     (if CHR ''='' \<in> set part \<and> k = py_strip (takeWhile (\<lambda>c. c \<noteq> CHR ''='') part)
      then Some (py_strip_chars (\<lambda>c. c = CHR '' '' \<or> c = CHR 0x22)
                   (tl (dropWhile (\<lambda>c. c \<noteq> CHR ''='') part)))
      else map_of d k)"
  by (simp add: parse_part_def AList.update_conv')

lemma fold_parse_part_cong:
  "map_of d k = map_of d' k \<Longrightarrow>
     map_of (fold parse_part ps d) k = map_of (fold parse_part ps d') k"
proof (induction ps arbitrary: d d')
  case Nil
  then show ?case by simp
next
  case (Cons part ps)
  have "map_of (parse_part part d) k = map_of (parse_part part d') k"
    using Cons.prems by (simp add: map_of_parse_part)
  from Cons.IH [OF this] show ?case by simp
qed

lemma py_strip_algorithm: "py_strip ''algorithm'' = ''algorithm''"
  by (simp add: py_strip_def py_strip_chars_def is_space_def)

lemma parse_part_algorithm:
  assumes "k \<noteq> ''algorithm''"
  shows "map_of (parse_part (''algorithm='' @ a) d) k = map_of d k"
  using assms by (simp add: map_of_parse_part py_strip_algorithm)

lemma parse_algorithm_irrelevant:
  assumes "CHR '','' \<notin> set a" "k \<noteq> ''algorithm''"
  shows "map_of (parse_signature_parts (py_join '','' (before @ [''algorithm='' @ a] @ after))) k
           = map_of (parse_signature_parts (py_join '','' (before @ after))) k"
proof -
  define alg where "alg = ''algorithm='' @ a"
  let ?sp = "\<lambda>xs. concat (map (py_split CHR '','') xs)"
  have one: "py_split CHR '','' alg = [alg]"
    by (rule py_split_none) (use assms(1) in \<open>simp add: alg_def\<close>)
  have drop: "\<And>d. map_of (parse_part alg d) k = map_of d k"
    unfolding alg_def by (rule parse_part_algorithm [OF assms(2)])
  have "map_of (fold parse_part (?sp (before @ [alg] @ after)) []) k
          = map_of (fold parse_part (?sp after)
                      (parse_part alg (fold parse_part (?sp before) []))) k"
    by (simp add: one)
  also have "\<dots> = map_of (fold parse_part (?sp after) (fold parse_part (?sp before) [])) k"
    by (rule fold_parse_part_cong) (rule drop)
  also have "\<dots> = map_of (fold parse_part (?sp (before @ after)) []) k"
    by simp
  finally show ?thesis
    unfolding alg_def parse_signature_parts_def fold_parse_split_join .
qed

lemma declared_lines_cong:
  "\<forall>h\<in>set ds. map_of hs1 h = map_of hs2 h \<Longrightarrow>
     declared_lines method path hs1 ds = declared_lines method path hs2 ds"
  by (induction ds) (auto split: option.splits)

lemma verify_request_cong:
  assumes s1: "map_of hs1 ''signature'' = Some s1" and s2: "map_of hs2 ''signature'' = Some s2"
    and k: "map_of (parse_signature_parts s1) ''keyId'' = map_of (parse_signature_parts s2) ''keyId''"
    and h: "map_of (parse_signature_parts s1) ''headers'' = map_of (parse_signature_parts s2) ''headers''"
    and g: "map_of (parse_signature_parts s1) ''signature''
           = map_of (parse_signature_parts s2) ''signature''"
    and dg: "map_of hs1 ''digest'' = map_of hs2 ''digest''"
    and dl: "\<And>d. map_of (parse_signature_parts s2) ''headers'' = Some d \<Longrightarrow>
           declared_lines method path hs1 (py_split_ws d)
             = declared_lines method path hs2 (py_split_ws d)"
  shows "verify_request cr gpk v hs1 method path body
           = verify_request cr gpk v hs2 method path body"
proof (cases "map_of (parse_signature_parts s2) ''headers''")
  case None
  then have "map_of (parse_signature_parts s1) ''headers'' = None" using h by simp
  then show ?thesis
    using None s1 s2 by (simp add: verify_request_def Let_def split: option.splits)
next
  case (Some d)
  then have h1: "map_of (parse_signature_parts s1) ''headers'' = Some d" using h by simp
  note lines = dl [OF Some]
  show ?thesis
    unfolding verify_request_def Let_def s1 s2 option.case k g h1 Some prod.case dg lines ..
qed

lemma verify_request_algorithm_absent:
  assumes nc: "CHR '','' \<notin> set a"
    and ns: "\<forall>d. map_of (parse_signature_parts (py_join '','' (before @ after))) ''headers'' = Some d
               \<longrightarrow> ''signature'' \<notin> set (py_split_ws d)"
  shows "verify_request cr gpk v
           (AList.update ''signature'' (py_join '','' (before @ [''algorithm='' @ a] @ after)) hs)
           method path body
       = verify_request cr gpk v
           (AList.update ''signature'' (py_join '','' (before @ after)) hs) method path body"
proof (rule verify_request_cong)
  show "map_of (AList.update ''signature'' (py_join '','' (before @ [''algorithm='' @ a] @ after)) hs)
          ''signature'' = Some (py_join '','' (before @ [''algorithm='' @ a] @ after))"
    by (simp add: AList.update_conv')
  show "map_of (AList.update ''signature'' (py_join '','' (before @ after)) hs) ''signature''
          = Some (py_join '','' (before @ after))"
    by (simp add: AList.update_conv')
  show "map_of (parse_signature_parts (py_join '','' (before @ [''algorithm='' @ a] @ after))) ''keyId''
          = map_of (parse_signature_parts (py_join '','' (before @ after))) ''keyId''"
    by (rule parse_algorithm_irrelevant [OF nc]) simp
  show "map_of (parse_signature_parts (py_join '','' (before @ [''algorithm='' @ a] @ after))) ''headers''
          = map_of (parse_signature_parts (py_join '','' (before @ after))) ''headers''"
    by (rule parse_algorithm_irrelevant [OF nc]) simp
  show "map_of (parse_signature_parts (py_join '','' (before @ [''algorithm='' @ a] @ after))) ''signature''
          = map_of (parse_signature_parts (py_join '','' (before @ after))) ''signature''"
    by (rule parse_algorithm_irrelevant [OF nc]) simp
  show "map_of (AList.update ''signature'' (py_join '','' (before @ [''algorithm='' @ a] @ after)) hs)
          ''digest''
        = map_of (AList.update ''signature'' (py_join '','' (before @ after)) hs) ''digest''"
    by (simp add: AList.update_conv')
next
  fix d
  assume "map_of (parse_signature_parts (py_join '','' (before @ after))) ''headers'' = Some d"
  with ns have "''signature'' \<notin> set (py_split_ws d)" by blast
  then have "\<forall>h\<in>set (py_split_ws d).
               map_of (AList.update ''signature''
                         (py_join '','' (before @ [''algorithm='' @ a] @ after)) hs) h
             = map_of (AList.update ''signature'' (py_join '','' (before @ after)) hs) h"
    by (auto simp: AList.update_conv')
  then show "declared_lines method path
               (AList.update ''signature'' (py_join '','' (before @ [''algorithm='' @ a] @ after)) hs)
               (py_split_ws d)
           = declared_lines method path
               (AList.update ''signature'' (py_join '','' (before @ after)) hs) (py_split_ws d)"
    by (rule declared_lines_cong)
qed

text \<open>
  Claim C10. Two inbound requests that differ only in the \<open>algorithm\<close> component of the
  \<open>Signature\<close> header (one text, another text, or no such component) get the same answer
  from \<open>verify_request\<close>. The header is the comma-joined list of its components; the
  algorithm texts contain no comma (the separator of the components), and the declared
  header list does not name the \<open>Signature\<close> header itself.
\<close>

theorem verify_request_ignores_algorithm:
  assumes "CHR '','' \<notin> set a1" "CHR '','' \<notin> set a2"
    and "\<forall>d. map_of (parse_signature_parts (py_join '','' (before @ after))) ''headers'' = Some d
               \<longrightarrow> ''signature'' \<notin> set (py_split_ws d)"
  shows "verify_request cr gpk v
           (AList.update ''signature'' (py_join '','' (before @ [''algorithm='' @ a1] @ after)) hs)
           method path body
       = verify_request cr gpk v
           (AList.update ''signature'' (py_join '','' (before @ [''algorithm='' @ a2] @ after)) hs)
           method path body
     \<and> verify_request cr gpk v
           (AList.update ''signature'' (py_join '','' (before @ [''algorithm='' @ a1] @ after)) hs)
           method path body
       = verify_request cr gpk v
           (AList.update ''signature'' (py_join '','' (before @ after)) hs) method path body"
  using verify_request_algorithm_absent [OF assms(1) assms(3), of cr gpk v hs "method" "path" body]
    verify_request_algorithm_absent [OF assms(2) assms(3), of cr gpk v hs "method" "path" body]
  by simp

lemma demo_expected_digest:
  "expected_digest standin_crypto demo_body
     = ''SHA-256=736861323536287b2274797065223a2022437265617465227d29''"
  by (simp add: expected_digest_def demo_body_def json_dumps_sorted_def json_string_def
        json_escape_char_def sort_by_key_def utf8_encode_def standin_crypto_def
        hex_encode_def hex_digit_def digit_char_def)

lemma verify_request_ignores_verifier:
  "verify_request cr gpk v hs method path body = verify_request cr gpk v' hs method path body"
  by (simp add: verify_request_def)

text \<open>
  The class as it is accepts no request: where every earlier check passes, the lookup of
  \<open>_get_public_key\<close> raises, and the handler of \<open>verify_request\<close> answers \<open>False\<close>.
\<close>

lemma verify_request_absent_resolver:
  "verify_request cr absent_get_public_key v hs method path body = False"
  by (simp add: verify_request_def absent_get_public_key_def Let_def
        split: option.splits prod.splits)

text \<open>
  The loop over the declared headers passes over a declared header that the request does
  not carry: the header adds no line to the signing string.
\<close>

lemma declared_lines_skips_absent:
  assumes "map_of hs h = None" "h \<noteq> ''(request-target)''"
  shows "declared_lines method path hs (ds @ h # es) = declared_lines method path hs (ds @ es)"
  using assms by (induction ds) (auto split: option.splits)

lemma demo_dated_parse_without:
  \<open>parse_signature_parts demo_sig_without =
     [(''keyId'', ''https://example.org/keys/1702000000''),
      (''headers'', ''(request-target) host date''),
      (''signature'', ''7369675b6e65775d28726571756573742d746172676574293a20706f7374202f696e626f780a686f73743a20696e626f782e6578616d706c650a646174653a204672692c2030382044656320323032332030313a34363a343020474d54'')]\<close>
  by (simp add: demo_sig_without_def demo_key_part_def demo_dated_parts_def
        parse_signature_parts_def py_split_def
        parse_part_def py_strip_def py_strip_chars_def is_space_def)

lemma demo_dated_words:
  "py_split_ws ''(request-target) host date'' = [''(request-target)'', ''host'', ''date'']"
  by (simp add: py_split_ws_def is_space_def)

theorem verify_request_ignores_algorithm_witness:
  \<open>verify_request standin_crypto absent_get_public_key demo_verifier
     (AList.update ''signature''
        (py_join '','' ([demo_key_part] @ [''algorithm='' @ ''"rsa-sha256"''] @ demo_dated_parts))
        [(''host'', ''inbox.example''), (''date'', ''Fri, 08 Dec 2023 01:46:40 GMT'')])
     ''POST'' ''/inbox'' None
   = verify_request standin_crypto absent_get_public_key demo_verifier
     (AList.update ''signature''
        (py_join '','' ([demo_key_part] @ [''algorithm='' @ ''"hs2019"''] @ demo_dated_parts))
        [(''host'', ''inbox.example''), (''date'', ''Fri, 08 Dec 2023 01:46:40 GMT'')])
     ''POST'' ''/inbox'' None
   \<and> verify_request standin_crypto absent_get_public_key demo_verifier
     (AList.update ''signature''
        (py_join '','' ([demo_key_part] @ [''algorithm='' @ ''"rsa-sha256"''] @ demo_dated_parts))
        [(''host'', ''inbox.example''), (''date'', ''Fri, 08 Dec 2023 01:46:40 GMT'')])
     ''POST'' ''/inbox'' None
   = verify_request standin_crypto absent_get_public_key demo_verifier
     (AList.update ''signature'' (py_join '','' ([demo_key_part] @ demo_dated_parts))
        [(''host'', ''inbox.example''), (''date'', ''Fri, 08 Dec 2023 01:46:40 GMT'')])
     ''POST'' ''/inbox'' None\<close>
proof -
  have c: \<open>CHR '','' \<notin> set ''"rsa-sha256"''\<close> \<open>CHR '','' \<notin> set ''"hs2019"''\<close>
    by simp_all
  have d: "\<forall>d. map_of (parse_signature_parts (py_join '','' ([demo_key_part] @ demo_dated_parts)))
                 ''headers'' = Some d \<longrightarrow> ''signature'' \<notin> set (py_split_ws d)"
    unfolding demo_sig_without_def [symmetric]
    by (simp add: demo_dated_parse_without demo_dated_words)
  show ?thesis
    by (rule verify_request_ignores_algorithm [OF c d, of standin_crypto absent_get_public_key
         demo_verifier "[(''host'', ''inbox.example''), (''date'', ''Fri, 08 Dec 2023 01:46:40 GMT'')]"
         "''POST''" "''/inbox''" None])
qed





text \<open>
  The signature of \<open>demo_dated_request\<close> decodes to the one that the key \<open>new\<close> makes of the signing
  string of the request, in the stand-in scheme: the request is valid.
\<close>

lemma demo_dated_lines:
  "py_join [CHR 0x0A] (declared_lines ''POST'' ''/inbox'' demo_dated_request
       (py_split_ws ''(request-target) host date''))
     = ''(request-target): post /inbox'' @ [CHR 0x0A] @ ''host: inbox.example''
         @ [CHR 0x0A] @ ''date: Fri, 08 Dec 2023 01:46:40 GMT''"
  by (simp add: demo_dated_words demo_dated_request_def request_target_line_def py_lower_def)

lemma demo_dated_hex_decode:
  "hex_decode ''7369675b6e65775d28726571756573742d746172676574293a20706f7374202f696e626f780a686f73743a20696e626f782e6578616d706c650a646174653a204672692c2030382044656320323032332030313a34363a343020474d54''
     = Inr (''sig[new](request-target): post /inbox'' @ [CHR 0x0A] @ ''host: inbox.example''
            @ [CHR 0x0A] @ ''date: Fri, 08 Dec 2023 01:46:40 GMT'')"
  by (simp add: hex_val_def byte_of_nibbles_def)

lemma demo_dated_signature_valid:
  "rsa_verify standin_crypto (public_key demo_new_pair)
     (''sig[new](request-target): post /inbox'' @ [CHR 0x0A] @ ''host: inbox.example''
        @ [CHR 0x0A] @ ''date: Fri, 08 Dec 2023 01:46:40 GMT'')
     (utf8_encode (py_join [CHR 0x0A] (declared_lines ''POST'' ''/inbox'' demo_dated_request
        (py_split_ws ''(request-target) host date''))))"
  unfolding demo_dated_lines
  by (simp add: standin_crypto_def demo_new_pair_def utf8_encode_def)

lemma demo_verify_date_late:
  "verify_date demo_strptime now (set_test_time (1702000000000000 + minutes 6) demo_verifier)
     (map_of demo_dated_request ''date'') = False"
  by (simp add: verify_date_def demo_strptime_def set_test_time_def minutes_def
        demo_dated_request_def)

lemma demo_verify_date_in_time:
  "verify_date demo_strptime now (set_test_time (1702000000000000 + minutes 4) demo_verifier)
     (map_of demo_dated_request ''date'') = True"
  by (simp add: verify_date_def demo_strptime_def set_test_time_def minutes_def
        demo_dated_request_def)

text \<open>
  Claim C3 fails on the code. A valid request signed with the date 2023-12-08 01:46:40 and
  verified by a verifier whose clock stands four minutes later is answered \<open>False\<close>,
  although \<open>_verify_date\<close> accepts that date at that time: the lookup of the public key
  raises, since the class has no \<open>_get_public_key\<close>. Six minutes after the date the
  answer is \<open>False\<close> too, for the same reason and not for the date: \<open>verify_request\<close>
  never calls \<open>_verify_date\<close> and never reads the clock.
\<close>

theorem verify_request_rejects_date_in_window:
  "verify_request standin_crypto absent_get_public_key
     (set_test_time (1702000000000000 + minutes 4) demo_verifier) demo_dated_request
     ''POST'' ''/inbox'' None = False
   \<and> verify_date demo_strptime 0 (set_test_time (1702000000000000 + minutes 4) demo_verifier)
         (map_of demo_dated_request ''date'') = True
   \<and> demo_strptime (the (map_of demo_dated_request ''date'')) = Some 1702000000000000
   \<and> verify_request standin_crypto absent_get_public_key
     (set_test_time (1702000000000000 + minutes 6) demo_verifier) demo_dated_request
     ''POST'' ''/inbox'' None = False
   \<and> verify_date demo_strptime 0 (set_test_time (1702000000000000 + minutes 6) demo_verifier)
         (map_of demo_dated_request ''date'') = False"
  using demo_verify_date_late [of 0] demo_verify_date_in_time [of 0]
    verify_request_absent_resolver [of standin_crypto
      "set_test_time (1702000000000000 + minutes 4) demo_verifier" demo_dated_request
      "''POST''" "''/inbox''" None]
    verify_request_absent_resolver [of standin_crypto
      "set_test_time (1702000000000000 + minutes 6) demo_verifier" demo_dated_request
      "''POST''" "''/inbox''" None]
  by (simp add: demo_strptime_def demo_dated_request_def)

section \<open>Properties of the delivery\<close>

lemma cache_get_wf:
  "cache_wf c \<Longrightarrow> \<exists>r c'. cache_get now c key = Inr (r, c') \<and> cache_wf c'"
  by (auto simp: cache_get_def cache_wf_def split: option.splits)

lemma cache_set_wf: "cache_wf c \<Longrightarrow> cache_wf (cache_set now c key v)"
  by (auto simp: cache_set_def cache_wf_def)

lemma get_state_wf:
  assumes "cache_wf (cache rl)"
  shows "\<exists>st rl'. get_state now rl d = Inr (st, rl') \<and> cache_wf (cache rl')"
proof -
  from cache_get_wf [OF assms, of now "state_key d"]
  obtain r c' where g: "cache_get now (cache rl) (state_key d) = Inr (r, c')" "cache_wf c'"
    by blast
  show ?thesis
    using g by (cases r) (auto simp: get_state_def set_state_def Let_def cache_set_wf)
qed

lemma check_rate_limit_wf:
  assumes "cache_wf (cache rl)"
  shows "\<exists>b rl'. check_rate_limit now rl d = Inr (b, rl') \<and> cache_wf (cache rl')"
proof -
  from get_state_wf [OF assms, of now d]
  obtain st rl1 where g: "get_state now rl d = Inr (st, rl1)" "cache_wf (cache rl1)"
    by blast
  show ?thesis
    using g by (auto simp: check_rate_limit_def set_state_def cache_set_wf)
qed

lemma get_wait_time_wf:
  assumes "cache_wf (cache rl)"
  shows "\<exists>w rl'. get_wait_time now rl d = Inr (w, rl') \<and> cache_wf (cache rl')"
proof -
  from get_state_wf [OF assms, of now d]
  obtain st rl1 where g: "get_state now rl d = Inr (st, rl1)" "cache_wf (cache rl1)"
    by blast
  show ?thesis
    using g by (auto simp: get_wait_time_def)
qed

lemma rate_limit_gate_ready:
  assumes "ready s"
  shows "\<exists>s1. rate_limit_gate s netloc = Inr s1 \<and> ready s1 \<and> posts s1 = posts s
           \<and> max_retries s1 = max_retries s \<and> retry_delay s1 = retry_delay s"
proof -
  from assms have wf: "cache_wf (cache (rate_limiter s))" by (simp add: ready_def)
  from check_rate_limit_wf [OF wf, of "clock s" netloc]
  obtain b rl where c: "check_rate_limit (clock s) (rate_limiter s) netloc = Inr (b, rl)"
    "cache_wf (cache rl)" by blast
  show ?thesis
  proof (cases b)
    case True
    then show ?thesis using c assms by (simp add: rate_limit_gate_def ready_def)
  next
    case False
    from get_wait_time_wf [OF c(2), of "clock s" netloc]
    obtain w rl' where w: "get_wait_time (clock s) rl netloc = Inr (w, rl')" "cache_wf (cache rl')"
      by blast
    show ?thesis using False c w assms by (simp add: rate_limit_gate_def ready_def sleep_def)
  qed
qed

lemma delivery_signing_lines:
  "\<exists>ls. signing_lines ''POST'' p
           (lower_keys (AList.update ''digest'' dg
                          (AList.update ''date'' dt (delivery_headers netloc))))
           headers_to_sign = Inr ls"
  by (simp add: delivery_headers_def lower_keys_def py_lower_def headers_to_sign_def)

lemma sign_request_delivery:
  assumes "signing_key v = Inr k"
  shows "\<exists>h. sign_request cr sf t v ''POST'' p (delivery_headers netloc) (Some a) = Inr h"
proof -
  have nd: "\<not> has_key (delivery_headers netloc) ''date''"
    by (simp add: has_key_def delivery_headers_def)
  obtain pk kid where k: "k = (pk, kid)" by (cases k)
  obtain dt where dt: "dt = sf (case test_now v of Some t' \<Rightarrow> t' | None \<Rightarrow> t)" by simp
  from delivery_signing_lines [of p "generate_digest cr a" dt netloc]
  obtain ls where ls: "signing_lines ''POST'' p
           (lower_keys (AList.update ''digest'' (generate_digest cr a)
                          (AList.update ''date'' dt (delivery_headers netloc))))
           headers_to_sign = Inr ls" by blast
  show ?thesis
    using nd ls assms k dt
    by (simp add: sign_request_def Let_def build_signing_string_def)
qed

lemma update_rate_limit_plain:
  "map_of hs ''X-RateLimit-Remaining'' = None \<Longrightarrow> update_rate_limit now rl d hs = Inr rl"
  by (simp add: update_rate_limit_def)

lemma sleep_ready:
  "ready s \<Longrightarrow> ready (sleep d s) \<and> posts (sleep d s) = posts s
      \<and> max_retries (sleep d s) = max_retries s \<and> retry_delay (sleep d s) = retry_delay s"
  by (simp add: sleep_def ready_def)

lemma deliver_step:
  assumes rdy: "ready s" and srv: "env_server env (posts s) = Responded r" and pl: "plain r"
  shows "\<exists>s3. ready s3 \<and> posts s3 = Suc (posts s) \<and> max_retries s3 = max_retries s
           \<and> retry_delay s3 = retry_delay s
           \<and> deliver_to_inbox (Suc fuel) cr env s a url rc =
               (if resp_status r = 200 \<or> resp_status r = 201 \<or> resp_status r = 202
                then Some (DeliveryResult_init\<lparr> success := [url],
                                                status_code := Some (resp_status r) \<rparr>, s3)
                else if resp_status r = 429 \<or> (resp_status r \<ge> 500 \<and> rc < max_retries s)
                then deliver_to_inbox fuel cr env (sleep (seconds (retry_delay s)) s3) a url (rc + 1)
                else (let result1 = DeliveryResult_init\<lparr> failed := [url],
                                       status_code := Some (resp_status r) \<rparr>
                      in case resp_text r of
                           Inl e \<Rightarrow> Some (failed_with result1 url (str_error e), s3)
                         | Inr txt \<Rightarrow> Some (result1\<lparr> error_message := Some txt \<rparr>, s3)))"
proof -
  obtain netloc url_path where up: "env_urlparse env url = (netloc, url_path)"
    by (cases "env_urlparse env url")
  from rate_limit_gate_ready [OF rdy, of netloc]
  obtain s1 where s1: "rate_limit_gate s netloc = Inr s1" "ready s1" "posts s1 = posts s"
    "max_retries s1 = max_retries s" "retry_delay s1 = retry_delay s" by blast
  from s1(2) obtain k where k: "signing_key (signature_verifier s1) = Inr k"
    by (auto simp: ready_def)
  from sign_request_delivery [OF k, of cr "env_strftime env" "clock s1" url_path netloc a]
  obtain h where h: "sign_request cr (env_strftime env) (clock s1) (signature_verifier s1)
                       ''POST'' url_path (delivery_headers netloc) (Some a) = Inr h"
    by blast
  let ?s3 = "s1\<lparr> posts := Suc (posts s1), rate_limiter := rate_limiter s1 \<rparr>"
  have upd: "update_rate_limit (clock s1) (rate_limiter s1) netloc (resp_headers r)
               = Inr (rate_limiter s1)"
    using pl by (simp add: plain_def update_rate_limit_plain)
  have ra: "retry_after_of ?s3 r = Inr (retry_delay s)"
    using pl s1(5) by (simp add: retry_after_of_def plain_def)
  have inv: "ready ?s3" "posts ?s3 = Suc (posts s)" "max_retries ?s3 = max_retries s"
    "retry_delay ?s3 = retry_delay s"
    using s1 by (simp_all add: ready_def)
  have "deliver_to_inbox (Suc fuel) cr env s a url rc =
               (if resp_status r = 200 \<or> resp_status r = 201 \<or> resp_status r = 202
                then Some (DeliveryResult_init\<lparr> success := [url],
                                                status_code := Some (resp_status r) \<rparr>, ?s3)
                else if resp_status r = 429 \<or> (resp_status r \<ge> 500 \<and> rc < max_retries s)
                then deliver_to_inbox fuel cr env (sleep (seconds (retry_delay s)) ?s3) a url (rc + 1)
                else (let result1 = DeliveryResult_init\<lparr> failed := [url],
                                       status_code := Some (resp_status r) \<rparr>
                      in case resp_text r of
                           Inl e \<Rightarrow> Some (failed_with result1 url (str_error e), ?s3)
                         | Inr txt \<Rightarrow> Some (result1\<lparr> error_message := Some txt \<rparr>, ?s3)))"
    using up s1(1) h srv s1(3) s1(4) upd ra
    by (simp add: Let_def DeliveryResult_init_def cong: sum.case_cong)
  with inv show ?thesis by blast
qed

lemma always_429_never_returns:
  assumes "ready s" "\<forall>n. env_server env n = Responded r" "plain r" "resp_status r = 429"
  shows "deliver_to_inbox fuel cr env s a url rc = None"
  using assms(1)
proof (induction fuel arbitrary: s rc)
  case 0
  then show ?case by simp
next
  case (Suc fuel)
  from assms(2) have srv: "env_server env (posts s) = Responded r" by simp
  from deliver_step [OF Suc.prems srv assms(3), of fuel cr a url rc]
  obtain s3 where s3: "ready s3"
    "deliver_to_inbox (Suc fuel) cr env s a url rc
       = deliver_to_inbox fuel cr env (sleep (seconds (retry_delay s)) s3) a url (rc + 1)"
    using assms(4) by auto
  from sleep_ready [OF s3(1)] have "ready (sleep (seconds (retry_delay s)) s3)" by simp
  from Suc.IH [OF this] s3(2) show ?case by simp
qed

lemma always_5xx_bounded:
  assumes "\<forall>n. env_server env n = Responded r" "plain r" "500 \<le> resp_status r"
  shows "ready s \<Longrightarrow> rc \<le> max_retries s \<Longrightarrow> k = nat (max_retries s - rc) \<Longrightarrow>
         \<exists>res s'. deliver_to_inbox (Suc k) cr env s a url rc = Some (res, s')
            \<and> success res = [] \<and> failed res \<noteq> []
            \<and> status_code res = Some (resp_status r)
            \<and> posts s' = posts s + k + 1"
proof (induction k arbitrary: s rc)
  case 0
  from assms(1) have srv: "env_server env (posts s) = Responded r" by simp
  from 0 have nr: "\<not> rc < max_retries s" by simp
  from deliver_step [OF 0(1) srv assms(2), of 0 cr a url rc]
  obtain s3 where s3: "posts s3 = Suc (posts s)"
    "deliver_to_inbox (Suc 0) cr env s a url rc =
       (let result1 = DeliveryResult_init\<lparr> failed := [url],
                                       status_code := Some (resp_status r) \<rparr>
                      in case resp_text r of
                           Inl e \<Rightarrow> Some (failed_with result1 url (str_error e), s3)
                         | Inr txt \<Rightarrow> Some (result1\<lparr> error_message := Some txt \<rparr>, s3))"
    using assms(3) nr by auto
  show ?case
    using s3 by (cases "resp_text r") (simp_all add: DeliveryResult_init_def failed_with_def)
next
  case (Suc k)
  from assms(1) have srv: "env_server env (posts s) = Responded r" by simp
  from Suc.prems have lt: "rc < max_retries s" by simp
  from deliver_step [OF Suc.prems(1) srv assms(2), of "Suc k" cr a url rc]
  obtain s3 where s3: "ready s3" "posts s3 = Suc (posts s)" "max_retries s3 = max_retries s"
    "deliver_to_inbox (Suc (Suc k)) cr env s a url rc
       = deliver_to_inbox (Suc k) cr env (sleep (seconds (retry_delay s)) s3) a url (rc + 1)"
    using assms(3) lt by auto
  let ?s4 = "sleep (seconds (retry_delay s)) s3"
  from sleep_ready [OF s3(1), of "seconds (retry_delay s)"]
  have s4: "ready ?s4" "posts ?s4 = Suc (posts s)" "max_retries ?s4 = max_retries s"
    using s3 by simp_all
  have "rc + 1 \<le> max_retries ?s4" "k = nat (max_retries ?s4 - (rc + 1))"
    using Suc.prems s4 by simp_all
  from Suc.IH [OF s4(1) this]
  show ?case using s3(4) s4(2) by auto
qed

lemma demo_delivery_ready: "ready demo_delivery"
  by (simp add: ready_def demo_delivery_def RateLimiter_init_def MemoryCache_init_def
        cache_wf_def demo_signing_key)

lemma demo_server_plain:
  "plain \<lparr> resp_status = st, resp_headers = [], resp_text = Inr ''unavailable'' \<rparr>"
  by (simp add: plain_def)

text \<open>
  Claim C4 fails on the code for the status 429. The condition of the retry is
  \<open>status == 429 or (status >= 500 and retry_count < max_retries)\<close>: the bound applies to
  the statuses from 500 on only. With \<open>max_retries = 3\<close>, a server that always answers 429
  is retried again and again: \<open>deliver_to_inbox\<close> does not return within any number of
  nested calls. A server that always answers 503 gets four POSTs, then the failure result.
\<close>

theorem deliver_to_inbox_429_unbounded:
  "deliver_to_inbox fuel standin_crypto (demo_server_env 429) demo_delivery demo_body
     ''https://inbox.example/inbox'' 0 = None
   \<and> max_retries demo_delivery = 3
   \<and> (\<exists>res s'. deliver_to_inbox 4 standin_crypto (demo_server_env 503) demo_delivery demo_body
                   ''https://inbox.example/inbox'' 0 = Some (res, s')
          \<and> success res = [] \<and> failed res \<noteq> [] \<and> status_code res = Some 503
          \<and> posts s' = 4)"
proof -
  have a: "deliver_to_inbox fuel standin_crypto (demo_server_env 429) demo_delivery demo_body
     ''https://inbox.example/inbox'' 0 = None"
    by (rule always_429_never_returns [OF demo_delivery_ready _ demo_server_plain [of 429]])
       (simp_all add: demo_server_env_def)
  have m: "max_retries demo_delivery = 3" "posts demo_delivery = 0"
    by (simp_all add: demo_delivery_def)
  have srv: "\<forall>n. env_server (demo_server_env 503) n
               = Responded \<lparr> resp_status = 503, resp_headers = [], resp_text = Inr ''unavailable'' \<rparr>"
    by (simp add: demo_server_env_def)
  from always_5xx_bounded [OF srv demo_server_plain [of 503] _ demo_delivery_ready,
         of 0 3 standin_crypto demo_body "''https://inbox.example/inbox''"]
  have "\<exists>res s'. deliver_to_inbox 4 standin_crypto (demo_server_env 503) demo_delivery demo_body
                   ''https://inbox.example/inbox'' 0 = Some (res, s')
          \<and> success res = [] \<and> failed res \<noteq> [] \<and> status_code res = Some 503
          \<and> posts s' = 4"
    using m by (simp add: eval_nat_numeral)
  with a m show ?thesis by simp
qed

section \<open>Properties of the delivery queue\<close>

lemma json_dumps_dict_enum:
  "status d = PStatus s \<Longrightarrow> \<exists>e. json_dumps_dict (to_dict d) = Inl e"
  by (cases "qd_id d"; cases "activity d"; cases "recipients d")
     (simp_all add: json_dumps_dict_def to_dict_def)

lemma attempt_delivery_status:
  "attempt_delivery f now m i n d r = (d', r') \<Longrightarrow> \<exists>s. status d' = PStatus s"
  by (auto simp: attempt_delivery_def Let_def split: delivery_outcome.splits if_splits sum.splits)

lemma attempt_delivery_store:
  "attempt_delivery f now m i n d r = (d', r') \<Longrightarrow>
     kv r' = kv r \<and> (\<forall>k. zset r k \<noteq> None \<longrightarrow> zset r' k \<noteq> None)"
  by (auto simp: attempt_delivery_def Let_def zadd_def
        split: delivery_outcome.splits if_splits sum.splits)

lemma process_delivery_never_persists:
  "kv (store (process_delivery f now q i)) = kv (store q)
   \<and> (\<forall>k. zset (store q) k \<noteq> None \<longrightarrow> zset (store (process_delivery f now q i)) k \<noteq> None)"
proof (cases "kv (store q) (''delivery:'' @ i)")
  case None
  then show ?thesis by (simp add: process_delivery_def)
next
  case (Some raw)
  show ?thesis
  proof (cases "QueuedDelivery_of raw")
    case (Inl e)
    then show ?thesis using Some by (simp add: process_delivery_def)
  next
    case (Inr d0)
    show ?thesis
    proof (cases "incremented (attempts d0)")
      case (Inl e)
      then show ?thesis using Some Inr by (simp add: process_delivery_def)
    next
      case inc: (Inr n)
      let ?d1 = "d0\<lparr> status := PStatus IN_PROGRESS, attempts := PJson (JInt n),
                       qd_updated_at := PDatetime now \<rparr>"
      obtain d2 r1 where a: "attempt_delivery f now (max_attempts q) i n ?d1 (store q) = (d2, r1)"
        by (cases "attempt_delivery f now (max_attempts q) i n ?d1 (store q)")
      from attempt_delivery_status [OF a] obtain s where "status d2 = PStatus s" by blast
      from json_dumps_dict_enum [OF this] obtain e where e: "json_dumps_dict (to_dict d2) = Inl e"
        by blast
      have "process_delivery f now q i = q\<lparr> store := r1 \<rparr>"
        using Some Inr inc a e by (simp add: process_delivery_def Let_def)
      with attempt_delivery_store [OF a] show ?thesis by simp
    qed
  qed
qed

lemma demo_job_loaded:
  "QueuedDelivery_of (demo_job n) =
     Inr \<lparr> qd_id = PJson (JStr ''delivery_1''), activity = PJson demo_body,
           recipients = PJson (JList [JStr ''https://inbox.example/inbox'']),
           status = PJson (JStr ''pending''), attempts = PJson (JInt n),
           next_attempt = PJson (JStr ''2023-12-08T01:46:40''),
           qd_created_at = PJson (JStr ''2023-12-08T01:46:40''),
           qd_updated_at = PJson (JStr ''2023-12-08T01:46:40''),
           qd_error = PJson JNull \<rparr>"
  by (simp add: QueuedDelivery_of_def demo_job_def field_names_def)

lemma demo_exhausted:
  "process_delivery failing_delivery now (demo_queue 4) ''delivery_1'' = demo_queue 4"
  by (simp add: process_delivery_def demo_queue_def demo_job_loaded incremented_def
        attempt_delivery_def failing_delivery_def DeliveryResult_init_def optional_str_def
        json_dumps_dict_def to_dict_def Let_def)

lemma demo_retry:
  assumes "0 \<le> now" "now \<le> 1800000000000000"
  shows "process_delivery failing_delivery now ((demo_queue 0)\<lparr> store := r \<lparr> kv := kv (store (demo_queue 0)) \<rparr> \<rparr>)
           ''delivery_1''
         = (demo_queue 0)\<lparr> store := r \<lparr> kv := kv (store (demo_queue 0)),
                                         zset := (zset r)(''delivery_1'' \<mapsto> now + minutes 2) \<rparr> \<rparr>"
  using assms
  by (simp add: process_delivery_def demo_queue_def demo_job_loaded incremented_def
        attempt_delivery_def failing_delivery_def DeliveryResult_init_def optional_str_def
        json_dumps_dict_def to_dict_def Let_def next_attempt_at_def backoff_delta_def
        minutes_def days_def zadd_def)

text \<open>
  Claim C5 fails on the code. After the attempt, \<open>_process_delivery\<close> writes the record
  back with \<open>json.dumps(delivery.__dict__)\<close>; the status is then a member of the enum
  \<open>DeliveryStatus\<close> and \<open>updated_at\<close> a \<open>datetime\<close>, \<open>json.dumps\<close> raises, and the outer
  \<open>except\<close> ends the function before the record is stored and before the job is removed
  from the schedule. A job on its last attempt (4 of 5) whose delivery fails keeps its
  stored record and stays in the schedule with its old score. A job with attempts left is
  rescheduled two minutes on, and two minutes on again at the next failure, since the stored
  count of attempts never grows.
\<close>

theorem process_delivery_record_not_updated:
  "kv (store (process_delivery failing_delivery 1702000060000000 (demo_queue 4) ''delivery_1''))
     ''delivery:delivery_1'' = Some (demo_job 4)
   \<and> zset (store (process_delivery failing_delivery 1702000060000000 (demo_queue 4) ''delivery_1''))
       ''delivery_1'' = Some 1702000000000000
   \<and> kv (store (process_delivery failing_delivery 1702000060000000 (demo_queue 0) ''delivery_1''))
       ''delivery:delivery_1'' = Some (demo_job 0)
   \<and> zset (store (process_delivery failing_delivery 1702000060000000 (demo_queue 0) ''delivery_1''))
       ''delivery_1'' = Some (1702000060000000 + minutes 2)
   \<and> zset (store (process_delivery failing_delivery 1702000180000000
                    (process_delivery failing_delivery 1702000060000000 (demo_queue 0)
                       ''delivery_1'')
                    ''delivery_1''))
       ''delivery_1'' = Some (1702000180000000 + minutes 2)"
proof -
  have q: "demo_queue 0 = (demo_queue 0)\<lparr> store := (store (demo_queue 0)) \<lparr> kv := kv (store (demo_queue 0)) \<rparr> \<rparr>"
    by simp
  have first: "process_delivery failing_delivery 1702000060000000 (demo_queue 0) ''delivery_1''
         = (demo_queue 0)\<lparr> store := (store (demo_queue 0)) \<lparr> kv := kv (store (demo_queue 0)),
              zset := (zset (store (demo_queue 0)))(''delivery_1'' \<mapsto> 1702000060000000 + minutes 2) \<rparr> \<rparr>"
    using demo_retry [of 1702000060000000 "store (demo_queue 0)"] q by simp
  have second: "process_delivery failing_delivery 1702000180000000
                    (process_delivery failing_delivery 1702000060000000 (demo_queue 0)
                       ''delivery_1'') ''delivery_1''
         = (demo_queue 0)\<lparr> store := (store (demo_queue 0)) \<lparr> kv := kv (store (demo_queue 0)),
              zset := (zset (store (demo_queue 0)))(''delivery_1'' \<mapsto> 1702000180000000 + minutes 2) \<rparr> \<rparr>"
    unfolding first
    using demo_retry [of 1702000180000000
            "(store (demo_queue 0)) \<lparr> kv := kv (store (demo_queue 0)),
              zset := (zset (store (demo_queue 0)))(''delivery_1'' \<mapsto> 1702000060000000 + minutes 2) \<rparr>"]
    by simp
  have c1: "kv (store (process_delivery failing_delivery 1702000060000000 (demo_queue 4) ''delivery_1''))
     ''delivery:delivery_1'' = Some (demo_job 4)"
    by (simp add: demo_exhausted) (simp add: demo_queue_def)
  have c2: "zset (store (process_delivery failing_delivery 1702000060000000 (demo_queue 4) ''delivery_1''))
       ''delivery_1'' = Some 1702000000000000"
    by (simp add: demo_exhausted) (simp add: demo_queue_def)
  have c3: "kv (store (process_delivery failing_delivery 1702000060000000 (demo_queue 0) ''delivery_1''))
       ''delivery:delivery_1'' = Some (demo_job 0)"
    unfolding first by (simp add: demo_queue_def)
  have c4: "zset (store (process_delivery failing_delivery 1702000060000000 (demo_queue 0) ''delivery_1''))
       ''delivery_1'' = Some (1702000060000000 + minutes 2)"
    unfolding first by simp
  have c5: "zset (store (process_delivery failing_delivery 1702000180000000
                    (process_delivery failing_delivery 1702000060000000 (demo_queue 0)
                       ''delivery_1'')
                    ''delivery_1''))
       ''delivery_1'' = Some (1702000180000000 + minutes 2)"
    unfolding second by simp
  from c1 c2 c3 c4 c5 show ?thesis by blast
qed

section \<open>The digest of a signed body never matches at verification\<close>

text \<open>
  For every body that is an object with a member, the compact serialization that
  \<open>sign_request\<close> digests is shorter than the one \<open>verify_request\<close> digests, and a
  digest header that differs from the expected one makes \<open>verify_request\<close> answer
  \<open>False\<close>, whatever the signature.
\<close>

lemma length_py_join:
  "length (py_join sep xs) = sum_list (map length xs) + length sep * (length xs - 1)"
  by (induction sep xs rule: py_join.induct) simp_all

lemma insert_by_key_sum:
  "sum_list (map f (insert_by_key item xs)) = (f item :: nat) + sum_list (map f xs)"
  by (induction xs) simp_all

lemma insert_by_key_length: "length (insert_by_key item xs) = Suc (length xs)"
  by (induction xs) simp_all

lemma sort_by_key_sum: "sum_list (map f (sort_by_key xs)) = (sum_list (map f xs) :: nat)"
  by (induction xs) (simp_all add: sort_by_key_def insert_by_key_sum)

lemma sort_by_key_length: "length (sort_by_key xs) = length xs"
  by (induction xs) (simp_all add: sort_by_key_def insert_by_key_length)

lemma length_dumps_obj:
  "length (py_json_dumps isep ksep (JObj kvs)) =
     2 + sum_list (map (\<lambda>(k, v). length (json_string k) + length ksep
                                   + length (py_json_dumps isep ksep v)) kvs)
       + length isep * (length kvs - 1)"
proof -
  have "sum_list (map length (map (\<lambda>(k, r). json_string k @ ksep @ r)
                 (sort_by_key (map (map_prod id (py_json_dumps isep ksep)) kvs))))
        = sum_list (map (\<lambda>(k, r). length (json_string k) + length ksep + length r)
                 (sort_by_key (map (map_prod id (py_json_dumps isep ksep)) kvs)))"
    by (simp add: comp_def case_prod_unfold ac_simps)
  also have "\<dots> = sum_list (map (\<lambda>(k, r). length (json_string k) + length ksep + length r)
                 (map (map_prod id (py_json_dumps isep ksep)) kvs))"
    by (rule sort_by_key_sum)
  also have "\<dots> = sum_list (map (\<lambda>(k, v). length (json_string k) + length ksep
                                   + length (py_json_dumps isep ksep v)) kvs)"
    by (simp add: comp_def case_prod_unfold)
  finally show ?thesis
    by (simp add: length_py_join sort_by_key_length)
qed

lemma length_dumps_list:
  "length (py_json_dumps isep ksep (JList xs)) =
     2 + sum_list (map (\<lambda>v. length (py_json_dumps isep ksep v)) xs)
       + length isep * (length xs - 1)"
  by (simp add: length_py_join comp_def)

lemma compact_not_longer:
  "length (py_json_dumps '','' '':'' v) \<le> length (py_json_dumps '', '' '': '' v)"
proof (induction v)
  case (JList xs)
  have "sum_list (map (\<lambda>v. length (py_json_dumps '','' '':'' v)) xs)
          \<le> sum_list (map (\<lambda>v. length (py_json_dumps '', '' '': '' v)) xs)"
    by (rule sum_list_mono) (use JList in auto)
  then show ?case
    unfolding length_dumps_list by simp
next
  case (JObj kvs)
  have "sum_list (map (\<lambda>(k, v). length (json_string k) + length '':''
                                   + length (py_json_dumps '','' '':'' v)) kvs)
          \<le> sum_list (map (\<lambda>(k, v). length (json_string k) + length '': ''
                                   + length (py_json_dumps '', '' '': '' v)) kvs)"
  proof (rule sum_list_mono)
    fix item assume mem: "item \<in> set kvs"
    obtain k v where item: "item = (k, v)" by (cases item)
    have "length (py_json_dumps '','' '':'' v) \<le> length (py_json_dumps '', '' '': '' v)"
      using JObj [of "(k, v)" v] mem item by simp
    then have "length (py_json_dumps '','' '':'' (snd item))
                 \<le> length (py_json_dumps '', '' '': '' (snd item))"
      using item by simp
    then show "(case item of (k, v) \<Rightarrow> length (json_string k) + length '':''
                                   + length (py_json_dumps '','' '':'' v))
             \<le> (case item of (k, v) \<Rightarrow> length (json_string k) + length '': ''
                                   + length (py_json_dumps '', '' '': '' v))"
      by (cases item) simp
  qed
  then show ?case
    unfolding length_dumps_obj by simp
qed simp_all

lemma compact_shorter_obj:
  assumes "kvs \<noteq> []"
  shows "length (py_json_dumps '','' '':'' (JObj kvs)) < length (py_json_dumps '', '' '': '' (JObj kvs))"
proof -
  define A where "A = sum_list (map (\<lambda>(k, v). length (json_string k) + length '':''
                                   + length (py_json_dumps '','' '':'' v)) kvs)"
  define B where "B = sum_list (map (\<lambda>(k, v). length (json_string k) + length '': ''
                                   + length (py_json_dumps '', '' '': '' v)) kvs)"
  have "sum_list (map (\<lambda>(k, v). length (json_string k) + length '':''
                                   + length (py_json_dumps '','' '':'' v)) kvs) + length kvs
          \<le> sum_list (map (\<lambda>(k, v). length (json_string k) + length '': ''
                                   + length (py_json_dumps '', '' '': '' v)) kvs)"
  proof (induction kvs)
    case Nil
    then show ?case by simp
  next
    case (Cons item kvs)
    obtain k v where item: "item = (k, v)" by (cases item)
    show ?case
      using Cons compact_not_longer [of v] item by simp
  qed
  then have le: "A + length kvs \<le> B" by (simp only: A_def B_def)
  have pos: "0 < length kvs" using assms by simp
  have l1: "length (py_json_dumps '','' '':'' (JObj kvs)) = 2 + A + (length kvs - 1)"
    unfolding length_dumps_obj A_def by simp
  have l2: "length (py_json_dumps '', '' '': '' (JObj kvs)) = 2 + B + 2 * (length kvs - 1)"
    unfolding length_dumps_obj B_def by simp
  show ?thesis
    unfolding l1 l2 using le pos by linarith
qed

lemma serializations_differ:
  "kvs \<noteq> [] \<Longrightarrow> to_json_string (JObj kvs) \<noteq> json_dumps_sorted (JObj kvs)"
  using compact_shorter_obj [of kvs]
  by (auto simp: to_json_string_def json_dumps_sorted_def simp del: py_json_dumps.simps)

lemma verify_request_digest_mismatch:
  assumes "map_of hs ''digest'' = Some d" "d \<noteq> expected_digest cr b"
  shows "verify_request cr gpk v hs m p (Some b) = False"
  using assms
  by (simp add: verify_request_def Let_def split: option.splits)

lemma set_update_distinct:
  "distinct (map fst al) \<Longrightarrow>
     set (AList.update k v al) = insert (k, v) {e \<in> set al. fst e \<noteq> k}"
  by (induction al) (auto simp: rev_image_eqI)

lemma map_of_fold_lower_Some:
  assumes "\<forall>e\<in>set hs. py_lower (fst e) = x \<longrightarrow> snd e = w"
    and "(\<exists>e\<in>set hs. py_lower (fst e) = x) \<or> map_of d0 x = Some w"
  shows "map_of (fold (\<lambda>(k, v) d. AList.update (py_lower k) v d) hs d0) x = Some w"
  using assms
proof (induction hs arbitrary: d0)
  case Nil
  then show ?case by simp
next
  case (Cons e hs)
  obtain k v where e: "e = (k, v)" by (cases e)
  have 1: "\<forall>e\<in>set hs. py_lower (fst e) = x \<longrightarrow> snd e = w" using Cons.prems(1) by simp
  have 2: "(\<exists>e\<in>set hs. py_lower (fst e) = x)
             \<or> map_of (AList.update (py_lower k) v d0) x = Some w"
    using Cons.prems e by (auto simp: AList.update_conv')
  from Cons.IH [OF 1 2] show ?case using e by simp
qed

lemma lower_keys_lookup:
  assumes "(k0, w) \<in> set hs" "py_lower k0 = x"
    and "\<forall>e\<in>set hs. py_lower (fst e) = x \<longrightarrow> snd e = w"
  shows "map_of (lower_keys hs) x = Some w"
  unfolding lower_keys_def
  by (rule map_of_fold_lower_Some [OF assms(3)]) (use assms(1,2) in force)

lemma sign_request_headers:
  assumes "sign_request cr sf now v m p hs0 (Some b) = Inr hs"
  shows "\<exists>rh sv. hs = AList.update ''Signature'' sv
                         (AList.update ''digest'' (generate_digest cr b) rh)
            \<and> (rh = hs0 \<or> (\<exists>dt. rh = AList.update ''date'' dt hs0))"
  using assms
  by (auto simp: sign_request_def Let_def split: sum.splits if_splits prod.splits)

lemma sign_request_digest:
  assumes sg: "sign_request cr sf now v m p hs0 (Some b) = Inr hs"
    and dist: "distinct (map fst hs0)"
    and only: "\<forall>k\<in>fst ` set hs0. py_lower k = ''digest'' \<longrightarrow> k = ''digest''"
  shows "map_of (lower_keys hs) ''digest'' = Some (generate_digest cr b)"
    and "map_of hs ''digest'' = Some (generate_digest cr b)"
proof -
  from sign_request_headers [OF sg]
  obtain rh sv where hs: "hs = AList.update ''Signature'' sv
                         (AList.update ''digest'' (generate_digest cr b) rh)"
    and rh: "rh = hs0 \<or> (\<exists>dt. rh = AList.update ''date'' dt hs0)" by blast
  have drh: "distinct (map fst rh)"
    using rh dist by (auto simp: AList.distinct_update)
  have lrh: "\<forall>k\<in>fst ` set rh. py_lower k = ''digest'' \<longrightarrow> k = ''digest''"
  proof
    fix k assume k: "k \<in> fst ` set rh"
    have "fst ` set rh \<subseteq> insert ''date'' (fst ` set hs0)"
    proof (cases "rh = hs0")
      case True
      then show ?thesis by blast
    next
      case False
      with rh obtain dt where "rh = AList.update ''date'' dt hs0" by blast
      then have "fst ` set rh = {''date''} \<union> fst ` set hs0"
        by (simp only: AList.dom_update)
      then show ?thesis by simp
    qed
    with k have "k \<in> fst ` set hs0 \<or> k = ''date''"
      by blast
    moreover have "py_lower ''date'' \<noteq> ''digest''" by (simp add: py_lower_def)
    ultimately show "py_lower k = ''digest'' \<longrightarrow> k = ''digest''"
      using only by auto
  qed
  let ?dg = "generate_digest cr b"
  let ?h1 = "AList.update ''digest'' ?dg rh"
  have s1: "set ?h1 = insert (''digest'', ?dg) {e \<in> set rh. fst e \<noteq> ''digest''}"
    by (rule set_update_distinct [OF drh])
  have d1: "distinct (map fst ?h1)"
    using drh by (simp add: AList.distinct_update)
  have s2: "set hs = insert (''Signature'', sv) {e \<in> set ?h1. fst e \<noteq> ''Signature''}"
    unfolding hs by (rule set_update_distinct [OF d1])
  have mem: "(''digest'', ?dg) \<in> set hs"
    unfolding s2 s1 by simp
  have low: "py_lower ''digest'' = ''digest''" "py_lower ''Signature'' \<noteq> ''digest''"
    by (simp_all add: py_lower_def)
  have all: "\<forall>e\<in>set hs. py_lower (fst e) = ''digest'' \<longrightarrow> snd e = ?dg"
  proof (intro ballI impI)
    fix e assume e: "e \<in> set hs" "py_lower (fst e) = ''digest''"
    from e(1) have "e = (''Signature'', sv) \<or> e = (''digest'', ?dg)
                      \<or> (e \<in> set rh \<and> fst e \<noteq> ''digest'')"
      unfolding s2 s1 by auto
    then show "snd e = ?dg"
    proof (elim disjE)
      assume "e = (''Signature'', sv)"
      with e(2) low(2) show ?thesis by simp
    next
      assume "e = (''digest'', ?dg)"
      then show ?thesis by simp
    next
      assume a: "e \<in> set rh \<and> fst e \<noteq> ''digest''"
      then have "fst e \<in> fst ` set rh" by simp
      with lrh e(2) have "fst e = ''digest''" by blast
      with a show ?thesis by simp
    qed
  qed
  show "map_of (lower_keys hs) ''digest'' = Some ?dg"
    by (rule lower_keys_lookup [OF mem low(1) all])
  show "map_of hs ''digest'' = Some ?dg"
    unfolding hs by (simp add: AList.update_conv')
qed

lemma roundtrip_rejected:
  assumes "sign_request cr sf now v m p hs0 (Some b) = Inr hs"
    and "distinct (map fst hs0)"
    and "\<forall>k\<in>fst ` set hs0. py_lower k = ''digest'' \<longrightarrow> k = ''digest''"
    and "generate_digest cr b \<noteq> expected_digest cr b"
  shows "verify_request cr gpk v' (lower_keys hs) m' p' (Some b) = False"
    and "verify_request cr gpk v' hs m' p' (Some b) = False"
  using sign_request_digest [OF assms(1-3)] assms(4)
  by (simp_all add: verify_request_digest_mismatch)

lemma demo_digests_differ:
  "generate_digest standin_crypto demo_body \<noteq> expected_digest standin_crypto demo_body"
  by (simp add: demo_expected_digest)
     (simp add: generate_digest_def demo_body_def to_json_string_def json_string_def
        json_escape_char_def sort_by_key_def utf8_encode_def standin_crypto_def
        hex_encode_def hex_digit_def digit_char_def)

text \<open>
  Claim C1 fails on the code. \<open>sign_request\<close> digests the compact serialization of the
  body (\<open>to_json_string\<close>), \<open>verify_request\<close> compares the digest with that of
  \<open>json.dumps(body, sort_keys=True)\<close>, which puts a space after every comma and colon.
  The headers that \<open>sign_request\<close> returns for the body \<open>{"type": "Create"}\<close> are
  rejected with that body, as they are returned and with their names in lower case,
  whatever the lookup of the public key gives: the two digests differ.
\<close>

theorem sign_verify_roundtrip_rejected:
  "sign_request standin_crypto demo_strftime 1702000000000000 demo_verifier ''POST'' ''/inbox''
     [(''host'', ''inbox.example'')] (Some demo_body) = Inr demo_signed_headers
   \<and> verify_request standin_crypto gpk demo_verifier
         (lower_keys demo_signed_headers) ''POST'' ''/inbox'' (Some demo_body) = False
   \<and> verify_request standin_crypto gpk demo_verifier
         demo_signed_headers ''POST'' ''/inbox'' (Some demo_body) = False
   \<and> generate_digest standin_crypto demo_body \<noteq> expected_digest standin_crypto demo_body"
proof -
  have d: "distinct (map fst [(''host'', ''inbox.example'')])"
    by simp
  have l: "\<forall>k\<in>fst ` set [(''host'', ''inbox.example'')]. py_lower k = ''digest'' \<longrightarrow> k = ''digest''"
    by (simp add: py_lower_def)
  note r = roundtrip_rejected [OF demo_sign d l demo_digests_differ,
      of gpk demo_verifier "''POST''" "''/inbox''"]
  from demo_sign r demo_digests_differ show ?thesis by simp
qed

end
